theory Spec2Isabelle
  imports Complex_Main "HOL-Library.List_Lexorder" "HOL-Library.Char_ord" "HOL-Library.Log_Nat"
begin

section \<open>Python values and strings\<close>

text \<open>
  The two scripts (\<^verbatim>\<open>workflow-crud.py\<close> and \<^verbatim>\<open>execution-manager.py\<close>) consume the
  server's JSON as Python values. A decoded JSON value is modelled by \<open>json\<close>; \<open>JNull\<close> is
  Python's \<^verbatim>\<open>None\<close>. An object carries its items in insertion order, as a Python
  \<^verbatim>\<open>dict\<close> does. JSON numbers are modelled as integers (ids, counters and node times
  in these payloads are integers).

  A Python \<^verbatim>\<open>str\<close> is modelled by its UTF-8 bytes. Python counts code points, so
  \<open>py_len\<close> and \<open>py_take\<close> skip UTF-8 continuation bytes (\<open>0x80..0xBF\<close>).
\<close>

datatype json =
    JNull
  | JBool bool
  | JInt int
  | JStr string
  | JArr "json list"
  | JObj "(string \<times> json) list"

datatype py_error =
    KeyError string
  | IndexError
  | TypeError
  | AttributeError
  | ValueError
  | ZeroDivisionError
  | RequestException string "json option option"

text \<open>
  \<open>RequestException m r\<close> is an exception of the \<^verbatim>\<open>requests\<close> library with message
  \<open>m\<close>; \<open>r\<close> is what the handler of \<^verbatim>\<open>_request\<close> can read from \<^verbatim>\<open>e.response\<close>:
  \<open>None\<close> when there is no response, otherwise the decoded body (or \<open>None\<close> inside when
  the body is not JSON). The response text travels separately where it is needed.
\<close>

definition is_cont :: "char \<Rightarrow> bool" where
  "is_cont c = (128 \<le> (of_char c :: nat) \<and> (of_char c :: nat) < 192)"

definition py_len :: "string \<Rightarrow> nat" where
  "py_len s = length (filter (\<lambda>c. \<not> is_cont c) s)"

fun py_take :: "nat \<Rightarrow> string \<Rightarrow> string" where
  "py_take n [] = []"
| "py_take n (c # cs) =
     (if is_cont c then c # py_take n cs
      else (case n of 0 \<Rightarrow> [] | Suc m \<Rightarrow> c # py_take m cs))"

definition ljust :: "nat \<Rightarrow> string \<Rightarrow> string" where
  "ljust n s = s @ replicate (n - py_len s) CHR '' ''"

definition rstrip_slash :: "string \<Rightarrow> string" where
  "rstrip_slash s = rev (dropWhile (\<lambda>c. c = CHR ''/'') (rev s))"

definition digit_char :: "nat \<Rightarrow> char" where
  "digit_char d = ''0123456789'' ! d"

fun str_nat :: "nat \<Rightarrow> string" where
  "str_nat n = (if n < 10 then [digit_char n] else str_nat (n div 10) @ [digit_char (n mod 10)])"

declare str_nat.simps [simp del]

definition str_int :: "int \<Rightarrow> string" where
  "str_int i = (if i < 0 then CHR ''-'' # str_nat (nat (- i)) else str_nat (nat i))"

text \<open>Truthiness of a value (\<^verbatim>\<open>if v:\<close>, \<^verbatim>\<open>not v\<close>, \<^verbatim>\<open>a or b\<close>).\<close>

fun truthy :: "json \<Rightarrow> bool" where
  "truthy JNull = False"
| "truthy (JBool b) = b"
| "truthy (JInt i) = (i \<noteq> 0)"
| "truthy (JStr s) = (s \<noteq> [])"
| "truthy (JArr xs) = (xs \<noteq> [])"
| "truthy (JObj kvs) = (kvs \<noteq> [])"

text \<open>\<^verbatim>\<open>d.get(k, default)\<close> and \<^verbatim>\<open>d[k]\<close> on a value expected to be a dict.\<close>

definition dict_get :: "json \<Rightarrow> string \<Rightarrow> json \<Rightarrow> py_error + json" where
  "dict_get d k dflt =
     (case d of
        JObj kvs \<Rightarrow> (case map_of kvs k of Some v \<Rightarrow> Inr v | None \<Rightarrow> Inr dflt)
      | _ \<Rightarrow> Inl AttributeError)"

definition dict_item :: "json \<Rightarrow> string \<Rightarrow> py_error + json" where
  "dict_item d k =
     (case d of
        JObj kvs \<Rightarrow> (case map_of kvs k of Some v \<Rightarrow> Inr v | None \<Rightarrow> Inl (KeyError k))
      | JArr xs \<Rightarrow> Inl TypeError
      | JStr s \<Rightarrow> Inl TypeError
      | _ \<Rightarrow> Inl TypeError)"

section \<open>The HTTP client of \<^verbatim>\<open>workflow-crud.py\<close>\<close>

text \<open>
  A request as the code hands it to \<^verbatim>\<open>requests\<close>: method, URL, the headers the program
  supplies (the session's headers for \<^verbatim>\<open>session.request\<close>, none for the module-level
  \<^verbatim>\<open>requests.post\<close>) and the \<^verbatim>\<open>json=\<close> payload. The network answers the \<open>n\<close>-th
  request of the run either with a transport failure or with a response.
\<close>

record request =
  req_method :: string
  req_url :: string
  req_headers :: "(string \<times> string) list"
  req_json :: "json option"

record response =
  status_code :: nat
  reason :: string
  resp_text :: string
  json_body :: "json option"

datatype http_result = TransportError string | Received response

type_synonym network = "nat \<Rightarrow> request \<Rightarrow> http_result"

record world =
  sent :: "request list"
  stdout :: "string list"
  stderr :: "string list"

datatype 'a result = Return 'a | Raise py_error | SysExit nat

record client =
  base_url :: string
  api_key :: string
  session_headers :: "(string \<times> string) list"

definition N8nClient :: "string \<Rightarrow> string \<Rightarrow> client" where
  "N8nClient url key =
     \<lparr> base_url = rstrip_slash url,
       api_key = key,
       session_headers = [(''X-N8N-API-KEY'', key), (''Content-Type'', ''application/json'')] \<rparr>"

definition send :: "network \<Rightarrow> request \<Rightarrow> world \<Rightarrow> http_result \<times> world" where
  "send net rq w = (net (length (sent w)) rq, w\<lparr>sent := sent w @ [rq]\<rparr>)"

text \<open>
  \<^verbatim>\<open>trigger_webhook\<close> posts with the module-level \<^verbatim>\<open>requests.post\<close>, not with the session,
  and does not call \<^verbatim>\<open>raise_for_status\<close>: any response is turned into a value.
\<close>

definition webhook_url :: "client \<Rightarrow> string \<Rightarrow> bool \<Rightarrow> string" where
  "webhook_url c path test =
     (let endpoint = (if test then ''webhook-test'' else ''webhook'')
      in base_url c @ ''/'' @ endpoint @ ''/'' @ path)"

definition trigger_webhook ::
    "network \<Rightarrow> client \<Rightarrow> string \<Rightarrow> json \<Rightarrow> bool \<Rightarrow> world \<Rightarrow> json result \<times> world" where
  "trigger_webhook net c path data test w =
     (let url = webhook_url c path test;
          rq = \<lparr> req_method = ''POST'', req_url = url, req_headers = [],
                 req_json = Some (if truthy data then data else JObj []) \<rparr>;
          (res, w1) = send net rq w
      in case res of
           TransportError m \<Rightarrow> (Raise (RequestException m None), w1)
         | Received r \<Rightarrow>
             (case json_body r of
                Some j \<Rightarrow> (Return j, w1)
              | None \<Rightarrow>
                  (Return (JObj [(''response'', JStr (resp_text r)),
                                 (''status_code'', JInt (int (status_code r)))]), w1)))"

text \<open>
  \<^verbatim>\<open>str(v)\<close> and \<^verbatim>\<open>repr(v)\<close> of a decoded value, and \<^verbatim>\<open>json.dumps(v, indent=ind)\<close>
  (\<open>dumps ind 0 v\<close>).
  Escaping of quotes, backslashes and control characters inside strings is not modelled;
  no property below depends on the characters of such a string.
\<close>

definition intercalate :: "string \<Rightarrow> string list \<Rightarrow> string" where
  "intercalate sep xs = (case xs of [] \<Rightarrow> [] | y # ys \<Rightarrow> y @ concat (map (\<lambda>z. sep @ z) ys))"

fun py_repr :: "json \<Rightarrow> string" where
  "py_repr JNull = ''None''"
| "py_repr (JBool b) = (if b then ''True'' else ''False'')"
| "py_repr (JInt i) = str_int i"
| "py_repr (JStr s) = [CHR 0x27] @ s @ [CHR 0x27]"
| "py_repr (JArr xs) = ''['' @ intercalate '', '' (map py_repr xs) @ '']''"
| "py_repr (JObj kvs) =
     ''{'' @ intercalate '', ''
        (map (\<lambda>kv. [CHR 0x27] @ fst kv @ [CHR 0x27] @ '': '' @ py_repr (snd kv)) kvs) @ ''}''"

definition py_str :: "json \<Rightarrow> string" where
  "py_str v = (case v of JStr s \<Rightarrow> s | _ \<Rightarrow> py_repr v)"

fun dumps :: "nat \<Rightarrow> nat \<Rightarrow> json \<Rightarrow> string" where
  "dumps ind n JNull = ''null''"
| "dumps ind n (JBool b) = (if b then ''true'' else ''false'')"
| "dumps ind n (JInt i) = str_int i"
| "dumps ind n (JStr s) = [CHR 0x22] @ s @ [CHR 0x22]"
| "dumps ind n (JArr xs) =
     (if xs = [] then ''[]''
      else ''['' @ [CHR 0x0A] @
           intercalate ('','' @ [CHR 0x0A])
             (map (\<lambda>x. replicate (n + ind) CHR '' '' @ dumps ind (n + ind) x) xs) @
           [CHR 0x0A] @ replicate n CHR '' '' @ '']'')"
| "dumps ind n (JObj kvs) =
     (if kvs = [] then ''{}''
      else ''{'' @ [CHR 0x0A] @
           intercalate ('','' @ [CHR 0x0A])
             (map (\<lambda>kv. replicate (n + ind) CHR '' '' @ [CHR 0x22] @ fst kv @ [CHR 0x22] @
                         '': '' @ dumps ind (n + ind) (snd kv)) kvs) @
           [CHR 0x0A] @ replicate n CHR '' '' @ ''}'')"

definition json_dumps :: "json \<Rightarrow> string" where
  "json_dumps v = dumps 2 0 v"

text \<open>
  \<^verbatim>\<open>response.raise_for_status()\<close> raises an \<^verbatim>\<open>HTTPError\<close> for a status in 400..599 and
  for no other status.
\<close>

definition raise_for_status :: "string \<Rightarrow> response \<Rightarrow> py_error option" where
  "raise_for_status url r =
     (if 400 \<le> status_code r \<and> status_code r < 500 then
        Some (RequestException
               (str_nat (status_code r) @ '' Client Error: '' @ reason r @ '' for url: '' @ url)
               (Some (json_body r)))
      else if 500 \<le> status_code r \<and> status_code r < 600 then
        Some (RequestException
               (str_nat (status_code r) @ '' Server Error: '' @ reason r @ '' for url: '' @ url)
               (Some (json_body r)))
      else None)"

text \<open>
  \<^verbatim>\<open>N8nClient._request\<close>. The \<^verbatim>\<open>try\<close> body sends one request through the session, checks
  the status and decodes the body (an empty body gives \<^verbatim>\<open>{}\<close>; a body that is not JSON
  raises the library's \<^verbatim>\<open>JSONDecodeError\<close>, a \<^verbatim>\<open>RequestException\<close> without response).
  The handler prints the error, then the response body (decoded, or else as text) when
  the exception carries a response, and calls \<^verbatim>\<open>sys.exit(1)\<close>.
\<close>

definition request_body ::
    "network \<Rightarrow> client \<Rightarrow> string \<Rightarrow> string \<Rightarrow> json option \<Rightarrow> world
       \<Rightarrow> ((py_error \<times> string) + json) \<times> world" where
  "request_body net c method endpoint data w =
     (let url = base_url c @ endpoint;
          rq = \<lparr> req_method = method, req_url = url, req_headers = session_headers c,
                 req_json = data \<rparr>;
          (res, w1) = send net rq w
      in case res of
           TransportError m \<Rightarrow> (Inl (RequestException m None, []), w1)
         | Received r \<Rightarrow>
             (case raise_for_status url r of
                Some e \<Rightarrow> (Inl (e, resp_text r), w1)
              | None \<Rightarrow>
                  if resp_text r \<noteq> [] then
                    (case json_body r of
                       Some j \<Rightarrow> (Inr j, w1)
                     | None \<Rightarrow> (Inl (RequestException ''Expecting value'' None, []), w1))
                  else (Inr (JObj []), w1)))"

definition N8nClient_request ::
    "network \<Rightarrow> client \<Rightarrow> string \<Rightarrow> string \<Rightarrow> json option \<Rightarrow> world \<Rightarrow> json result \<times> world" where
  "N8nClient_request net c method endpoint data w =
     (case request_body net c method endpoint data w of
        (Inr j, w1) \<Rightarrow> (Return j, w1)
      | (Inl (RequestException m ro, txt), w1) \<Rightarrow>
          (SysExit 1,
           w1\<lparr>stderr := stderr w1 @ [''Error: '' @ m] @
                 (case ro of
                    None \<Rightarrow> []
                  | Some (Some j) \<Rightarrow> [''Response: '' @ py_str j]
                  | Some None \<Rightarrow> [''Response: '' @ txt])\<rparr>)
      | (Inl (e, txt), w1) \<Rightarrow> (Raise e, w1))"

text \<open>\<^verbatim>\<open>result.get('data', [])\<close> after a request that returned.\<close>

definition get_data :: "json result \<times> world \<Rightarrow> json result \<times> world" where
  "get_data rw =
     (case rw of
        (Return j, w) \<Rightarrow>
          (case dict_get j ''data'' (JArr []) of Inr v \<Rightarrow> (Return v, w) | Inl e \<Rightarrow> (Raise e, w))
      | other \<Rightarrow> other)"

definition return_none :: "json result \<times> world \<Rightarrow> json result \<times> world" where
  "return_none rw = (case rw of (Return j, w) \<Rightarrow> (Return JNull, w) | other \<Rightarrow> other)"

definition executions_query :: "string option \<Rightarrow> string option \<Rightarrow> int \<Rightarrow> string" where
  "executions_query workflow_id status limit =
     intercalate ''&''
       ([''limit='' @ str_int limit] @
        (case workflow_id of
           Some wid \<Rightarrow> (if wid \<noteq> [] then [''workflowId='' @ wid] else [])
         | None \<Rightarrow> []) @
        (case status of
           Some st \<Rightarrow> (if st \<noteq> [] then [''status='' @ st] else [])
         | None \<Rightarrow> []))"

text \<open>The operations of \<^verbatim>\<open>N8nClient\<close>, one constructor per method.\<close>

datatype api_op =
    ListWorkflows bool int
  | GetWorkflow string
  | CreateWorkflow json
  | UpdateWorkflow string json
  | DeleteWorkflow string
  | ActivateWorkflow string
  | DeactivateWorkflow string
  | ListExecutions "string option" "string option" int
  | GetExecution string bool
  | DeleteExecution string
  | TriggerWebhook string json bool

fun run_op :: "network \<Rightarrow> client \<Rightarrow> api_op \<Rightarrow> world \<Rightarrow> json result \<times> world" where
  "run_op net c (ListWorkflows active_only limit) w =
     get_data (N8nClient_request net c ''GET''
       (''/api/v1/workflows'' @ ''?limit='' @ str_int limit @
          (if active_only then ''&active=true'' else [])) None w)"
| "run_op net c (GetWorkflow wid) w =
     N8nClient_request net c ''GET'' (''/api/v1/workflows/'' @ wid) None w"
| "run_op net c (CreateWorkflow d) w =
     N8nClient_request net c ''POST'' ''/api/v1/workflows'' (Some d) w"
| "run_op net c (UpdateWorkflow wid d) w =
     N8nClient_request net c ''PUT'' (''/api/v1/workflows/'' @ wid) (Some d) w"
| "run_op net c (DeleteWorkflow wid) w =
     return_none (N8nClient_request net c ''DELETE'' (''/api/v1/workflows/'' @ wid) None w)"
| "run_op net c (ActivateWorkflow wid) w =
     N8nClient_request net c ''POST'' (''/api/v1/workflows/'' @ wid @ ''/activate'') None w"
| "run_op net c (DeactivateWorkflow wid) w =
     N8nClient_request net c ''POST'' (''/api/v1/workflows/'' @ wid @ ''/deactivate'') None w"
| "run_op net c (ListExecutions workflow_id status limit) w =
     get_data (N8nClient_request net c ''GET''
       (''/api/v1/executions?'' @ executions_query workflow_id status limit) None w)"
| "run_op net c (GetExecution eid include_data) w =
     N8nClient_request net c ''GET''
       (''/api/v1/executions/'' @ eid @ ''?includeData='' @
          (if include_data then ''true'' else ''false'')) None w"
| "run_op net c (DeleteExecution eid) w =
     return_none (N8nClient_request net c ''DELETE'' (''/api/v1/executions/'' @ eid) None w)"
| "run_op net c (TriggerWebhook path d test) w = trigger_webhook net c path d test w"

fun is_webhook :: "api_op \<Rightarrow> bool" where
  "is_webhook (TriggerWebhook path d test) = True"
| "is_webhook other = False"

section \<open>The watch loop of \<^verbatim>\<open>execution-manager.py\<close>\<close>

text \<open>
  \<^verbatim>\<open>cmd_watch\<close> keeps a set of seen ids and \<^verbatim>\<open>last_check\<close>, which is \<^verbatim>\<open>None\<close> until the
  first poll has been processed. Elements of a Python set are compared with \<^verbatim>\<open>==\<close> and
  must be hashable: \<open>py_key\<close> gives the element a value stands for (\<^verbatim>\<open>True == 1\<close>,
  \<^verbatim>\<open>False == 0\<close>) or the \<^verbatim>\<open>TypeError\<close> of an unhashable list or dict.

  The loop is modelled on the sequence of polls it performs before it is interrupted:
  each poll is the clock text read by \<^verbatim>\<open>datetime.now()\<close> and the value returned by
  \<^verbatim>\<open>list_executions\<close>. Every printed line is logged together with the set element it
  was printed for.
\<close>

fun py_key :: "json \<Rightarrow> py_error + json" where
  "py_key (JArr xs) = Inl TypeError"
| "py_key (JObj kvs) = Inl TypeError"
| "py_key (JBool b) = Inr (JInt (if b then 1 else 0))"
| "py_key v = Inr v"

definition icon_success :: string where "icon_success = [CHR 0xE2, CHR 0x9C, CHR 0x93]"
definition icon_error :: string where "icon_error = [CHR 0xE2, CHR 0x9C, CHR 0x97]"
definition icon_waiting :: string where "icon_waiting = [CHR 0xE2, CHR 0x8F, CHR 0xB3]"
definition icon_running :: string where "icon_running = [CHR 0xE2, CHR 0x96, CHR 0xB6]"

definition watch_icon :: "json \<Rightarrow> py_error + string" where
  "watch_icon status =
     (case py_key status of
        Inl e \<Rightarrow> Inl e
      | Inr k \<Rightarrow>
          Inr (if k = JStr ''success'' then icon_success
               else if k = JStr ''error'' then icon_error
               else if k = JStr ''waiting'' then icon_waiting
               else if k = JStr ''running'' then icon_running
               else ''?''))"

definition watch_line :: "string \<Rightarrow> json \<Rightarrow> py_error + string" where
  "watch_line now ex =
     (case dict_get ex ''status'' (JStr []) of
        Inl e \<Rightarrow> Inl e
      | Inr s0 \<Rightarrow>
     (case watch_icon s0 of
        Inl e \<Rightarrow> Inl e
      | Inr icon \<Rightarrow>
     (case dict_item ex ''id'' of
        Inl e \<Rightarrow> Inl e
      | Inr i \<Rightarrow>
     (case dict_get ex ''workflowId'' JNull of
        Inl e \<Rightarrow> Inl e
      | Inr wid \<Rightarrow>
     (case dict_get ex ''status'' JNull of
        Inl e \<Rightarrow> Inl e
      | Inr st \<Rightarrow>
          Inr (''['' @ now @ ''] '' @ icon @ '' Execution '' @ py_str i @
               '' - Workflow '' @ py_str wid @ '' - '' @ py_str st))))))"

record watch_state =
  seen_ids :: "json set"
  last_check :: "string option"
  printed :: "(json \<times> string) list"

definition watch_init :: watch_state where
  "watch_init = \<lparr> seen_ids = {}, last_check = None, printed = [] \<rparr>"

definition watch_exec :: "string \<Rightarrow> watch_state \<Rightarrow> json \<Rightarrow> py_error + watch_state" where
  "watch_exec now st ex =
     (case dict_item ex ''id'' of
        Inl e \<Rightarrow> Inl e
      | Inr i \<Rightarrow>
     (case py_key i of
        Inl e \<Rightarrow> Inl e
      | Inr k \<Rightarrow>
          if k \<notin> seen_ids st then
            (let st1 = st\<lparr>seen_ids := insert k (seen_ids st)\<rparr>
             in if last_check st1 \<noteq> None then
                  (case watch_line now ex of
                     Inl e \<Rightarrow> Inl e
                   | Inr l \<Rightarrow> Inr (st1\<lparr>printed := printed st1 @ [(k, l)]\<rparr>))
                else Inr st1)
          else Inr st))"

fun watch_for :: "string \<Rightarrow> watch_state \<Rightarrow> json list \<Rightarrow> py_error + watch_state" where
  "watch_for now st [] = Inr st"
| "watch_for now st (ex # exs) =
     (case watch_exec now st ex of Inl e \<Rightarrow> Inl e | Inr st1 \<Rightarrow> watch_for now st1 exs)"

text \<open>
  \<^verbatim>\<open>reversed(executions)\<close>: a list is walked from its end; a dict yields its keys and
  a string its characters; any other value is not reversible.
\<close>

definition py_reversed :: "json \<Rightarrow> py_error + json list" where
  "py_reversed v =
     (case v of
        JArr xs \<Rightarrow> Inr (rev xs)
      | JObj kvs \<Rightarrow> Inr (map (\<lambda>kv. JStr (fst kv)) (rev kvs))
      | JStr s \<Rightarrow> Inr (map (\<lambda>c. JStr [c]) (rev s))
      | _ \<Rightarrow> Inl TypeError)"

definition watch_poll :: "watch_state \<Rightarrow> string \<times> json \<Rightarrow> py_error + watch_state" where
  "watch_poll st poll =
     (case py_reversed (snd poll) of
        Inl e \<Rightarrow> Inl e
      | Inr exs \<Rightarrow>
          (case watch_for (fst poll) st exs of
             Inl e \<Rightarrow> Inl e
           | Inr st1 \<Rightarrow> Inr (st1\<lparr>last_check := Some (fst poll)\<rparr>)))"

fun watch_run :: "watch_state \<Rightarrow> (string \<times> json) list \<Rightarrow> py_error + watch_state" where
  "watch_run st [] = Inr st"
| "watch_run st (poll # polls) =
     (case watch_poll st poll of Inl e \<Rightarrow> Inl e | Inr st1 \<Rightarrow> watch_run st1 polls)"

text \<open>
  The set element of an execution record, and the records the loop processes without an
  exception: a dict with a hashable \<^verbatim>\<open>id\<close> and a hashable (or absent) \<^verbatim>\<open>status\<close>.
\<close>

definition exec_key :: "json \<Rightarrow> json option" where
  "exec_key ex =
     (case dict_item ex ''id'' of
        Inl e \<Rightarrow> None
      | Inr i \<Rightarrow> (case py_key i of Inl e \<Rightarrow> None | Inr k \<Rightarrow> Some k))"

definition watchable :: "json \<Rightarrow> bool" where
  "watchable ex =
     (exec_key ex \<noteq> None \<and>
      (case dict_get ex ''status'' (JStr []) of
         Inl e \<Rightarrow> False
       | Inr s \<Rightarrow> (case py_key s of Inl e \<Rightarrow> False | Inr k \<Rightarrow> True)))"

definition poll_execs :: "string \<times> json \<Rightarrow> json list" where
  "poll_execs poll = (case snd poll of JArr xs \<Rightarrow> xs | _ \<Rightarrow> [])"

definition poll_ok :: "string \<times> json \<Rightarrow> bool" where
  "poll_ok poll = (case snd poll of JArr xs \<Rightarrow> list_all watchable xs | _ \<Rightarrow> False)"

definition poll_keys :: "string \<times> json \<Rightarrow> json set" where
  "poll_keys poll = set (List.map_filter exec_key (poll_execs poll))"

text \<open>The set elements of a list of execution records, and two sample polls.\<close>

definition keys_of :: "json list \<Rightarrow> json set" where
  "keys_of exs = set (List.map_filter exec_key exs)"

definition sample_poll1 :: "string \<times> json" where
  "sample_poll1 = (''10:00:00'', JArr [JObj [(''id'', JInt 1), (''status'', JStr ''success'')]])"

definition sample_poll2 :: "string \<times> json" where
  "sample_poll2 =
     (''10:00:05'', JArr [JObj [(''id'', JInt 2), (''status'', JStr ''error'')],
                          JObj [(''id'', JInt 1), (''status'', JStr ''success'')]])"

section \<open>The node listing of \<^verbatim>\<open>cmd_debug\<close>\<close>

text \<open>
  \<^verbatim>\<open>v[0]\<close>, \<^verbatim>\<open>for x in v\<close> and \<^verbatim>\<open>len(v)\<close> on a decoded value. They are only applied to
  truthy values in \<^verbatim>\<open>cmd_debug\<close>; a number or a boolean raises \<^verbatim>\<open>TypeError\<close>, a dict
  has no key \<^verbatim>\<open>0\<close>.
\<close>

definition py_first :: "json \<Rightarrow> py_error + json" where
  "py_first v =
     (case v of
        JArr xs \<Rightarrow> (case xs of [] \<Rightarrow> Inl IndexError | x # rest \<Rightarrow> Inr x)
      | JStr s \<Rightarrow> (if s = [] then Inl IndexError else Inr (JStr (py_take 1 s)))
      | JObj kvs \<Rightarrow> Inl (KeyError ''0'')
      | _ \<Rightarrow> Inl TypeError)"

fun py_chars :: "nat \<Rightarrow> string \<Rightarrow> string list" where
  "py_chars 0 s = []"
| "py_chars (Suc n) s =
     (if s = [] then [] else py_take 1 s # py_chars n (drop (length (py_take 1 s)) s))"

definition py_iter :: "json \<Rightarrow> py_error + json list" where
  "py_iter v =
     (case v of
        JArr xs \<Rightarrow> Inr xs
      | JStr s \<Rightarrow> Inr (map JStr (py_chars (length s) s))
      | JObj kvs \<Rightarrow> Inr (map (\<lambda>kv. JStr (fst kv)) kvs)
      | _ \<Rightarrow> Inl TypeError)"

definition py_len_json :: "json \<Rightarrow> py_error + nat" where
  "py_len_json v =
     (case v of
        JArr xs \<Rightarrow> Inr (length xs)
      | JStr s \<Rightarrow> Inr (py_len s)
      | JObj kvs \<Rightarrow> Inr (length kvs)
      | _ \<Rightarrow> Inl TypeError)"

text \<open>
  The first loop of the node listing: every node with a non-empty attempt list
  contributes its name, the \<^verbatim>\<open>executionTime\<close> of its first attempt (default 0) and the
  first attempt itself. The list is then sorted by name with Python's stable sort;
  Python orders strings by code point, which is the byte order of their UTF-8 form.
\<close>

fun collect_nodes :: "(string \<times> json) list \<Rightarrow> py_error + (string \<times> json \<times> json) list" where
  "collect_nodes [] = Inr []"
| "collect_nodes (item # rest) =
     (if truthy (snd item) then
        (case py_first (snd item) of
           Inl e \<Rightarrow> Inl e
         | Inr d0 \<Rightarrow>
        (case dict_get d0 ''executionTime'' (JInt 0) of
           Inl e \<Rightarrow> Inl e
         | Inr exec_time \<Rightarrow>
        (case collect_nodes rest of
           Inl e \<Rightarrow> Inl e
         | Inr others \<Rightarrow> Inr ((fst item, exec_time, d0) # others))))
      else collect_nodes rest)"

definition node_times :: "json \<Rightarrow> py_error + (string \<times> json \<times> json) list" where
  "node_times run_data =
     (case run_data of
        JObj kvs \<Rightarrow>
          (case collect_nodes kvs of
             Inl e \<Rightarrow> Inl e
           | Inr xs \<Rightarrow> Inr (sort_key fst xs))
      | _ \<Rightarrow> Inl AttributeError)"

text \<open>
  The item count of one attempt: \<^verbatim>\<open>items_out\<close> starts at 0 and grows by \<^verbatim>\<open>len(branch)\<close>
  for every truthy branch of \<^verbatim>\<open>data['data']['main']\<close>.
\<close>

fun count_branches :: "nat \<Rightarrow> json list \<Rightarrow> py_error + nat" where
  "count_branches items_out [] = Inr items_out"
| "count_branches items_out (branch # rest) =
     (if truthy branch then
        (case py_len_json branch of
           Inl e \<Rightarrow> Inl e
         | Inr n \<Rightarrow> count_branches (items_out + n) rest)
      else count_branches items_out rest)"

definition output_main :: "json \<Rightarrow> py_error + json" where
  "output_main d =
     (case dict_get d ''data'' (JObj []) of
        Inl e \<Rightarrow> Inl e
      | Inr dd \<Rightarrow> dict_get dd ''main'' JNull)"

definition items_out :: "json \<Rightarrow> py_error + nat" where
  "items_out d =
     (case output_main d of
        Inl e \<Rightarrow> Inl e
      | Inr main \<Rightarrow>
          if truthy main then
            (case py_iter main of
               Inl e \<Rightarrow> Inl e
             | Inr branches \<Rightarrow> count_branches 0 branches)
          else Inr 0)"

definition has_key :: "json \<Rightarrow> string \<Rightarrow> bool" where
  "has_key d k = (case d of JObj kvs \<Rightarrow> map_of kvs k \<noteq> None | _ \<Rightarrow> False)"

definition error_line :: "json \<Rightarrow> py_error + string list" where
  "error_line d =
     (if has_key d ''error'' then
        (case dict_item d ''error'' of
           Inl e \<Rightarrow> Inl e
         | Inr err \<Rightarrow>
             (case dict_get err ''message'' err of
                Inl e \<Rightarrow> Inl e
              | Inr msg \<Rightarrow> Inr [''   ERROR: '' @ py_str msg]))
      else Inr [])"

fun sample_lines :: "nat \<Rightarrow> json list \<Rightarrow> py_error + string list" where
  "sample_lines i [] = Inr []"
| "sample_lines i (branch # rest) =
     (if truthy branch then
        (case py_len_json branch of
           Inl e \<Rightarrow> Inl e
         | Inr n \<Rightarrow>
        (case py_first branch of
           Inl e \<Rightarrow> Inl e
         | Inr item \<Rightarrow>
        (case dict_get item ''json'' (JObj []) of
           Inl e \<Rightarrow> Inl e
         | Inr j \<Rightarrow>
        (case sample_lines (Suc i) rest of
           Inl e \<Rightarrow> Inl e
         | Inr others \<Rightarrow>
             Inr ((''   Output['' @ str_nat i @ ''] sample: '' @
                   py_take 200 (dumps 6 0 j) @ ''...'') # others)))))
      else sample_lines (Suc i) rest)"

definition verbose_lines :: "bool \<Rightarrow> json \<Rightarrow> py_error + string list" where
  "verbose_lines verbose d =
     (if verbose then
        (case output_main d of
           Inl e \<Rightarrow> Inl e
         | Inr main \<Rightarrow>
             if truthy main then
               (case py_iter main of
                  Inl e \<Rightarrow> Inl e
                | Inr branches \<Rightarrow> sample_lines 0 branches)
             else Inr [])
      else Inr [])"

text \<open>The lines printed for one node: each list element is one \<^verbatim>\<open>print\<close> call.\<close>

definition node_block :: "bool \<Rightarrow> string \<times> json \<times> json \<Rightarrow> py_error + string list" where
  "node_block verbose node =
     (let node_name = fst node; exec_time = fst (snd node); d = snd (snd node);
          status = (if \<not> has_key d ''error'' then icon_success else icon_error)
      in case items_out d of
           Inl e \<Rightarrow> Inl e
         | Inr n \<Rightarrow>
        (case error_line d of
           Inl e \<Rightarrow> Inl e
         | Inr el \<Rightarrow>
        (case verbose_lines verbose d of
           Inl e \<Rightarrow> Inl e
         | Inr vl \<Rightarrow>
             Inr ([[CHR 0x0A] @ status @ '' '' @ node_name,
                   ''   Execution time: '' @ py_str exec_time @ ''ms'',
                   ''   Items output: '' @ str_nat n] @ el @ vl))))"

fun node_blocks :: "bool \<Rightarrow> (string \<times> json \<times> json) list \<Rightarrow> py_error + string list list" where
  "node_blocks verbose [] = Inr []"
| "node_blocks verbose (node # rest) =
     (case node_block verbose node of
        Inl e \<Rightarrow> Inl e
      | Inr b \<Rightarrow>
          (case node_blocks verbose rest of Inl e \<Rightarrow> Inl e | Inr bs \<Rightarrow> Inr (b # bs)))"

text \<open>
  The node section of the report, entered when \<^verbatim>\<open>run_data\<close> is truthy: three header
  lines, then one block per node in the order of the sorted list.
\<close>

definition node_section :: "bool \<Rightarrow> json \<Rightarrow> py_error + string list list" where
  "node_section verbose run_data =
     (if truthy run_data then
        (case node_times run_data of
           Inl e \<Rightarrow> Inl e
         | Inr nodes \<Rightarrow>
             (case node_blocks verbose nodes of
                Inl e \<Rightarrow> Inl e
              | Inr bs \<Rightarrow>
                  Inr ([[CHR 0x0A] @ replicate 40 CHR ''-'', ''NODE EXECUTION DETAILS'',
                        replicate 40 CHR ''-''] # bs)))
      else Inr [])"

text \<open>
  Run data as the claims take it: every node maps to a list of attempts, each a dict.
  \<open>node_names\<close> is the set of nodes that have at least one attempt.
\<close>

definition attempt_list :: "json \<Rightarrow> bool" where
  "attempt_list v = (case v of JArr xs \<Rightarrow> list_all (\<lambda>a. case a of JObj kvs \<Rightarrow> True | _ \<Rightarrow> False) xs | _ \<Rightarrow> False)"

definition node_names :: "(string \<times> json) list \<Rightarrow> string set" where
  "node_names kvs = set (map fst (filter (\<lambda>kv. snd kv \<noteq> JArr []) kvs))"

definition sample_attempt :: json where
  "sample_attempt =
     JObj [(''executionTime'', JInt 5),
           (''data'', JObj [(''main'',
              JArr (map JArr [[JObj [(''json'', JObj [])], JObj [(''json'', JObj [])]], [],
                    [JObj [(''json'', JObj [])]]]))])]"

definition sample_run_data :: "(string \<times> json) list" where
  "sample_run_data =
     [(''B'', JArr [sample_attempt]),
      (''A'', JArr [JObj [(''executionTime'', JInt 50)]]),
      (''C'', JArr [JObj [(''executionTime'', JInt 1), (''error'', JObj [(''message'', JStr ''boom'')])]])]"

section \<open>Floating-point numbers\<close>

text \<open>
  A Python \<^verbatim>\<open>float\<close> is an IEEE-754 binary64 number. A finite float is modelled by the
  rational it denotes, and every arithmetic operation by the exact result rounded to the
  nearest number with a 53-bit significand, ties to even (\<open>fl\<close>). Overflow, subnormal
  numbers, infinities and NaN are not modelled: the values computed by these scripts are
  quotients and products of counts below 101 and of durations below \<open>10 ^ 20\<close> microseconds
  (the range of \<^verbatim>\<open>timedelta\<close>), far inside the normal range.
\<close>

definition round_half_even :: "rat \<Rightarrow> int" where
  "round_half_even x =
     (let f = \<lfloor>x\<rfloor>; r = x - of_int f
      in if r < 1 / 2 then f
         else if 1 / 2 < r then f + 1
         else if even f then f else f + 1)"

text \<open>The binary exponent \<open>e\<close> of a positive rational: \<open>2 powi e \<le> x < 2 powi (e + 1)\<close>.\<close>

definition float_exponent :: "rat \<Rightarrow> int" where
  "float_exponent x =
     (let d = bitlen (fst (quotient_of x)) - bitlen (snd (quotient_of x))
      in if 2 powi d \<le> x then d else d - 1)"

definition fl :: "rat \<Rightarrow> rat" where
  "fl x =
     (if x = 0 then 0
      else (let u = 2 powi (float_exponent \<bar>x\<bar> - 52)
            in sgn x * of_int (round_half_even (\<bar>x\<bar> / u)) * u))"

text \<open>
  \<^verbatim>\<open>a / b\<close>, \<^verbatim>\<open>a * b\<close> and \<^verbatim>\<open>a + b\<close> with a float result, \<^verbatim>\<open>int(x)\<close>, and the format
  specifications \<^verbatim>\<open>.1f\<close> and \<^verbatim>\<open>.2f\<close>, which round the exact value of the float to
  \<open>p\<close> decimals, ties to even.
\<close>

definition py_truediv :: "rat \<Rightarrow> rat \<Rightarrow> rat" where
  "py_truediv a b = fl (a / b)"

definition py_mul :: "rat \<Rightarrow> rat \<Rightarrow> rat" where
  "py_mul a b = fl (a * b)"

definition py_add :: "rat \<Rightarrow> rat \<Rightarrow> rat" where
  "py_add a b = fl (a + b)"

definition py_int :: "rat \<Rightarrow> int" where
  "py_int x = (if 0 \<le> x then \<lfloor>x\<rfloor> else \<lceil>x\<rceil>)"

fun zero_pad :: "nat \<Rightarrow> string \<Rightarrow> string" where
  "zero_pad p s = replicate (p - length s) CHR ''0'' @ s"

definition format_fixed :: "nat \<Rightarrow> rat \<Rightarrow> string" where
  "format_fixed p x =
     (let m = nat (round_half_even (\<bar>x\<bar> * 10 ^ p))
      in (if x < 0 then ''-'' else []) @ str_nat (m div 10 ^ p) @ ''.'' @
         zero_pad p (str_nat (m mod 10 ^ p)))"

section \<open>Timestamps and durations\<close>

text \<open>
  A \<^verbatim>\<open>datetime\<close> is modelled by the microseconds its wall-clock fields count from
  0001-01-01 and by its UTC offset in microseconds, if it is timezone-aware. Subtracting
  or comparing an aware and a naive \<^verbatim>\<open>datetime\<close> raises \<^verbatim>\<open>TypeError\<close>. The difference is
  a \<^verbatim>\<open>timedelta\<close>, an exact number of microseconds.

  \<^verbatim>\<open>datetime.fromisoformat\<close> belongs to the Python library and differs between Python
  versions; it is a parameter of the model (\<open>None\<close> stands for its \<^verbatim>\<open>ValueError\<close>).
\<close>

record datetime =
  wall_us :: int
  utcoffset :: "int option"

definition dt_sub :: "datetime \<Rightarrow> datetime \<Rightarrow> py_error + int" where
  "dt_sub a b =
     (case (utcoffset a, utcoffset b) of
        (None, None) \<Rightarrow> Inr (wall_us a - wall_us b)
      | (Some oa, Some ob) \<Rightarrow> Inr ((wall_us a - oa) - (wall_us b - ob))
      | _ \<Rightarrow> Inl TypeError)"

definition dt_le :: "datetime \<Rightarrow> datetime \<Rightarrow> py_error + bool" where
  "dt_le a b =
     (case (utcoffset a, utcoffset b) of
        (None, None) \<Rightarrow> Inr (wall_us a \<le> wall_us b)
      | (Some oa, Some ob) \<Rightarrow> Inr (wall_us a - oa \<le> wall_us b - ob)
      | _ \<Rightarrow> Inl TypeError)"

definition total_seconds :: "int \<Rightarrow> rat" where
  "total_seconds us = py_truediv (of_int us) (10 ^ 6)"

definition replace_Z :: "string \<Rightarrow> string" where
  "replace_Z s = concat (map (\<lambda>c. if c = CHR ''Z'' then ''+00:00'' else [c]) s)"

definition replace_T :: "string \<Rightarrow> string" where
  "replace_T s = map (\<lambda>c. if c = CHR ''T'' then CHR '' '' else c) s"

text \<open>
  \<^verbatim>\<open>format_timestamp\<close>: slicing works on a string and on a list; a list has no
  \<^verbatim>\<open>replace\<close>, and a number, a boolean or a dict cannot be sliced.
\<close>

definition format_timestamp :: "json \<Rightarrow> py_error + string" where
  "format_timestamp ts =
     (if \<not> truthy ts then Inr ''N/A''
      else (case ts of
              JStr s \<Rightarrow> Inr (replace_T (py_take 19 s))
            | JArr xs \<Rightarrow> Inl AttributeError
            | _ \<Rightarrow> Inl TypeError))"

text \<open>
  \<^verbatim>\<open>format_duration\<close>. The three tiers are rendered from the float
  \<^verbatim>\<open>total_seconds\<close>. In the last tier \<^verbatim>\<open>//\<close> and \<^verbatim>\<open>%\<close> are exact on a float of at
  least 60, so the two integers are \<open>\<lfloor>x / 60\<rfloor>\<close> and \<open>\<lfloor>x - 60 * \<lfloor>x / 60\<rfloor>\<rfloor>\<close>.
\<close>

definition render_duration :: "rat \<Rightarrow> string" where
  "render_duration secs =
     (if secs < 1 then str_int (py_int (py_mul secs 1000)) @ ''ms''
      else if secs < 60 then format_fixed 1 secs @ ''s''
      else (let minutes = \<lfloor>secs / 60\<rfloor>;
                seconds = \<lfloor>secs - 60 * of_int \<lfloor>secs / 60\<rfloor>\<rfloor>
            in str_int minutes @ ''m '' @ str_int seconds @ ''s''))"

definition parse_timestamp :: "(string \<Rightarrow> datetime option) \<Rightarrow> json \<Rightarrow> py_error + datetime" where
  "parse_timestamp fromisoformat v =
     (case v of
        JStr s \<Rightarrow>
          (case fromisoformat (replace_Z s) of None \<Rightarrow> Inl ValueError | Some dt \<Rightarrow> Inr dt)
      | _ \<Rightarrow> Inl AttributeError)"

definition duration_try :: "(string \<Rightarrow> datetime option) \<Rightarrow> json \<Rightarrow> json \<Rightarrow> py_error + string" where
  "duration_try fromisoformat start stop =
     (case parse_timestamp fromisoformat start of
        Inl e \<Rightarrow> Inl e
      | Inr start_dt \<Rightarrow>
     (case parse_timestamp fromisoformat stop of
        Inl e \<Rightarrow> Inl e
      | Inr stop_dt \<Rightarrow>
     (case dt_sub stop_dt start_dt of
        Inl e \<Rightarrow> Inl e
      | Inr duration \<Rightarrow> Inr (render_duration (total_seconds duration)))))"

text \<open>
  The result type records that the function can return or raise; the \<^verbatim>\<open>except Exception\<close>
  clause turns every exception of the \<^verbatim>\<open>try\<close> body into the placeholder.
\<close>

definition format_duration :: "(string \<Rightarrow> datetime option) \<Rightarrow> json \<Rightarrow> json \<Rightarrow> py_error + string" where
  "format_duration fromisoformat start stop =
     (if \<not> truthy start \<or> \<not> truthy stop then Inr ''N/A''
      else (case duration_try fromisoformat start stop of
              Inl e \<Rightarrow> Inr ''N/A''
            | Inr s \<Rightarrow> Inr s))"

text \<open>
  A concrete parser, used to run the model on sample inputs. It accepts the form in which
  the server writes timestamps once \<^verbatim>\<open>Z\<close> has been replaced,
  \<^verbatim>\<open>YYYY-MM-DDTHH:MM:SS\<close> with an optional fraction of 3 or 6 digits and an optional
  offset \<^verbatim>\<open>+HH:MM\<close> or \<^verbatim>\<open>-HH:MM\<close>: a subset of what \<^verbatim>\<open>datetime.fromisoformat\<close> accepts
  since Python 3.7, with the same result on it.
\<close>

definition number :: "string \<Rightarrow> nat option" where
  "number s =
     (if s \<noteq> [] \<and> list_all (\<lambda>c. CHR ''0'' \<le> c \<and> c \<le> CHR ''9'') s
      then Some (foldl (\<lambda>n c. 10 * n + (of_char c - 48)) 0 s)
      else None)"

definition is_leap :: "nat \<Rightarrow> bool" where
  "is_leap y = (y mod 4 = 0 \<and> (y mod 100 \<noteq> 0 \<or> y mod 400 = 0))"

definition days_in_month :: "nat \<Rightarrow> nat \<Rightarrow> nat" where
  "days_in_month y m =
     (if m = 2 then (if is_leap y then 29 else 28)
      else if m = 4 \<or> m = 6 \<or> m = 9 \<or> m = 11 then 30 else 31)"

definition days_before_year :: "nat \<Rightarrow> nat" where
  "days_before_year y = (y - 1) * 365 + (y - 1) div 4 - (y - 1) div 100 + (y - 1) div 400"

definition days_before_month :: "nat \<Rightarrow> nat \<Rightarrow> nat" where
  "days_before_month y m = sum_list (map (days_in_month y) [1..<m])"

definition parse_date :: "string \<Rightarrow> nat option" where
  "parse_date s =
     (if length s = 10 \<and> s ! 4 = CHR ''-'' \<and> s ! 7 = CHR ''-'' then
        (case (number (take 4 s), number (take 2 (drop 5 s)), number (drop 8 s)) of
           (Some y, Some m, Some d) \<Rightarrow>
             if 1 \<le> y \<and> 1 \<le> m \<and> m \<le> 12 \<and> 1 \<le> d \<and> d \<le> days_in_month y m
             then Some (days_before_year y + days_before_month y m + (d - 1))
             else None
         | _ \<Rightarrow> None)
      else None)"

definition parse_fraction :: "string \<Rightarrow> nat option" where
  "parse_fraction s =
     (if s = [] then Some 0
      else if hd s = CHR ''.'' \<and> length s = 4 then map_option (\<lambda>n. n * 1000) (number (tl s))
      else if hd s = CHR ''.'' \<and> length s = 7 then number (tl s)
      else None)"

definition parse_time :: "string \<Rightarrow> nat option" where
  "parse_time s =
     (if 8 \<le> length s \<and> s ! 2 = CHR '':'' \<and> s ! 5 = CHR '':'' then
        (case (number (take 2 s), number (take 2 (drop 3 s)), number (take 2 (drop 6 s)),
               parse_fraction (drop 8 s)) of
           (Some h, Some mi, Some sec, Some us) \<Rightarrow>
             if h < 24 \<and> mi < 60 \<and> sec < 60
             then Some (((h * 60 + mi) * 60 + sec) * 1000000 + us)
             else None
         | _ \<Rightarrow> None)
      else None)"

definition parse_offset :: "string \<Rightarrow> int option" where
  "parse_offset s =
     (if length s = 6 \<and> (hd s = CHR ''+'' \<or> hd s = CHR ''-'') \<and> s ! 3 = CHR '':'' then
        (case (number (take 2 (tl s)), number (drop 4 s)) of
           (Some h, Some mi) \<Rightarrow>
             if h < 24 \<and> mi < 60
             then Some ((if hd s = CHR ''-'' then - 1 else 1) * int ((h * 60 + mi) * 60 * 1000000))
             else None
         | _ \<Rightarrow> None)
      else None)"

definition iso_parser :: "string \<Rightarrow> datetime option" where
  "iso_parser s =
     (let n = length s;
          aware = (25 \<le> n \<and> (s ! (n - 6) = CHR ''+'' \<or> s ! (n - 6) = CHR ''-''));
          body = (if aware then take (n - 6) s else s)
      in if 19 \<le> length body then
           (case (parse_date (take 10 body), parse_time (drop 11 body)) of
              (Some days, Some us) \<Rightarrow>
                if aware then
                  (case parse_offset (drop (n - 6) s) of
                     Some off \<Rightarrow>
                       Some \<lparr> wall_us = int days * 86400000000 + int us, utcoffset = Some off \<rparr>
                   | None \<Rightarrow> None)
                else Some \<lparr> wall_us = int days * 86400000000 + int us, utcoffset = None \<rparr>
            | _ \<Rightarrow> None)
         else None)"

section \<open>The statistics of \<^verbatim>\<open>cmd_stats\<close>\<close>

text \<open>
  \<^verbatim>\<open>status_counts\<close> is a Python dict: the items in insertion order, keys compared as set
  elements are (\<open>py_key\<close>). Division raises \<^verbatim>\<open>ZeroDivisionError\<close> on a zero divisor.
\<close>

definition py_div :: "rat \<Rightarrow> rat \<Rightarrow> py_error + rat" where
  "py_div a b = (if b = 0 then Inl ZeroDivisionError else Inr (py_truediv a b))"

fun counts_get :: "(json \<times> nat) list \<Rightarrow> json \<Rightarrow> nat" where
  "counts_get [] k = 0"
| "counts_get (item # rest) k =
     (if py_key (fst item) = py_key k then snd item else counts_get rest k)"

fun counts_bump :: "(json \<times> nat) list \<Rightarrow> json \<Rightarrow> (json \<times> nat) list" where
  "counts_bump [] k = [(k, 1)]"
| "counts_bump (item # rest) k =
     (if py_key (fst item) = py_key k then (fst item, snd item + 1) # rest
      else item # counts_bump rest k)"

definition duration_seconds ::
    "(string \<Rightarrow> datetime option) \<Rightarrow> json \<Rightarrow> json \<Rightarrow> py_error + rat" where
  "duration_seconds fromisoformat start stop =
     (case parse_timestamp fromisoformat start of
        Inl e \<Rightarrow> Inl e
      | Inr start_dt \<Rightarrow>
     (case parse_timestamp fromisoformat stop of
        Inl e \<Rightarrow> Inl e
      | Inr stop_dt \<Rightarrow>
     (case dt_sub stop_dt start_dt of
        Inl e \<Rightarrow> Inl e
      | Inr us \<Rightarrow> Inr (total_seconds us))))"

record stats_acc =
  status_counts :: "(json \<times> nat) list"
  total_duration :: rat
  count_with_duration :: nat

definition stats_init :: stats_acc where
  "stats_init = \<lparr> status_counts = [], total_duration = 0, count_with_duration = 0 \<rparr>"

text \<open>
  One round of the loop over the executions. The \<^verbatim>\<open>try\<close> block around the duration
  swallows every exception, leaving both accumulators as they were.
\<close>

definition stats_step ::
    "(string \<Rightarrow> datetime option) \<Rightarrow> stats_acc \<Rightarrow> json \<Rightarrow> py_error + stats_acc" where
  "stats_step fromisoformat acc ex =
     (case dict_get ex ''status'' (JStr ''unknown'') of
        Inl e \<Rightarrow> Inl e
      | Inr status \<Rightarrow>
     (case py_key status of
        Inl e \<Rightarrow> Inl e
      | Inr k \<Rightarrow>
     (case dict_get ex ''startedAt'' JNull of
        Inl e \<Rightarrow> Inl e
      | Inr started \<Rightarrow>
     (case dict_get ex ''stoppedAt'' JNull of
        Inl e \<Rightarrow> Inl e
      | Inr stopped \<Rightarrow>
          (let acc1 = acc\<lparr>status_counts := counts_bump (status_counts acc) status\<rparr>
           in if truthy started \<and> truthy stopped then
                (case duration_seconds fromisoformat started stopped of
                   Inl e \<Rightarrow> Inr acc1
                 | Inr d \<Rightarrow>
                     Inr (acc1\<lparr>total_duration := py_add (total_duration acc1) d,
                               count_with_duration := count_with_duration acc1 + 1\<rparr>))
              else Inr acc1)))))"

fun stats_loop ::
    "(string \<Rightarrow> datetime option) \<Rightarrow> stats_acc \<Rightarrow> json list \<Rightarrow> py_error + stats_acc" where
  "stats_loop fromisoformat acc [] = Inr acc"
| "stats_loop fromisoformat acc (ex # rest) =
     (case stats_step fromisoformat acc ex of
        Inl e \<Rightarrow> Inl e
      | Inr acc1 \<Rightarrow> stats_loop fromisoformat acc1 rest)"

text \<open>
  \<^verbatim>\<open>sorted(status_counts.items())\<close>. The keys of a dict are pairwise different, so the
  pairs are ordered by their keys. Strings are ordered among themselves and numbers
  among themselves; any other pair of keys is not orderable, and every sorting algorithm
  has to compare such a pair when there are two keys or more.
\<close>

definition is_str :: "json \<Rightarrow> bool" where
  "is_str v = (case v of JStr s \<Rightarrow> True | _ \<Rightarrow> False)"

definition str_of :: "json \<Rightarrow> string" where
  "str_of v = (case v of JStr s \<Rightarrow> s | _ \<Rightarrow> [])"

definition is_num :: "json \<Rightarrow> bool" where
  "is_num v = (case v of JInt i \<Rightarrow> True | JBool b \<Rightarrow> True | _ \<Rightarrow> False)"

definition num_of :: "json \<Rightarrow> int" where
  "num_of v = (case v of JInt i \<Rightarrow> i | JBool b \<Rightarrow> (if b then 1 else 0) | _ \<Rightarrow> 0)"

definition sorted_items :: "(json \<times> nat) list \<Rightarrow> py_error + (json \<times> nat) list" where
  "sorted_items items =
     (if length items \<le> 1 then Inr items
      else if list_all (\<lambda>item. is_str (fst item)) items
        then Inr (sort_key (\<lambda>item. str_of (fst item)) items)
      else if list_all (\<lambda>item. is_num (fst item)) items
        then Inr (sort_key (\<lambda>item. num_of (fst item)) items)
      else Inl TypeError)"

definition status_line :: "nat \<Rightarrow> json \<times> nat \<Rightarrow> py_error + string" where
  "status_line n item =
     (case py_div (of_nat (snd item)) (of_nat n) of
        Inl e \<Rightarrow> Inl e
      | Inr q \<Rightarrow>
          Inr (''  '' @ py_str (fst item) @ '': '' @ str_nat (snd item) @ '' ('' @
               format_fixed 1 (py_mul q 100) @ ''%)''))"

fun status_lines :: "nat \<Rightarrow> (json \<times> nat) list \<Rightarrow> py_error + string list" where
  "status_lines n [] = Inr []"
| "status_lines n (item # rest) =
     (case status_line n item of
        Inl e \<Rightarrow> Inl e
      | Inr l \<Rightarrow> (case status_lines n rest of Inl e \<Rightarrow> Inl e | Inr ls \<Rightarrow> Inr (l # ls)))"

definition average_lines :: "stats_acc \<Rightarrow> py_error + string list" where
  "average_lines acc =
     (if 0 < count_with_duration acc then
        (case py_div (total_duration acc) (of_nat (count_with_duration acc)) of
           Inl e \<Rightarrow> Inl e
         | Inr avg_duration \<Rightarrow>
             Inr [[CHR 0x0A] @ ''Average duration: '' @ format_fixed 2 avg_duration @ ''s''])
      else Inr [])"

definition success_rate_lines :: "(json \<times> nat) list \<Rightarrow> py_error + string list" where
  "success_rate_lines counts =
     (let success = counts_get counts (JStr ''success'');
          error = counts_get counts (JStr ''error'')
      in if 0 < success + error then
           (case py_div (of_nat success) (of_nat (success + error)) of
              Inl e \<Rightarrow> Inl e
            | Inr q \<Rightarrow> Inr [''Success rate: '' @ format_fixed 1 (py_mul q 100) @ ''%''])
         else Inr [])"

text \<open>
  \<^verbatim>\<open>cmd_stats\<close> on the value returned by \<^verbatim>\<open>list_executions\<close>; the result is the list of
  printed lines.
\<close>

definition cmd_stats :: "(string \<Rightarrow> datetime option) \<Rightarrow> json \<Rightarrow> py_error + string list" where
  "cmd_stats fromisoformat all_execs =
     (if \<not> truthy all_execs then Inr [''No executions found'']
      else
     (case py_iter all_execs of
        Inl e \<Rightarrow> Inl e
      | Inr execs \<Rightarrow>
     (case stats_loop fromisoformat stats_init execs of
        Inl e \<Rightarrow> Inl e
      | Inr acc \<Rightarrow>
     (case py_len_json all_execs of
        Inl e \<Rightarrow> Inl e
      | Inr n \<Rightarrow>
     (case sorted_items (status_counts acc) of
        Inl e \<Rightarrow> Inl e
      | Inr items \<Rightarrow>
     (case status_lines n items of
        Inl e \<Rightarrow> Inl e
      | Inr sl \<Rightarrow>
     (case average_lines acc of
        Inl e \<Rightarrow> Inl e
      | Inr al \<Rightarrow>
     (case success_rate_lines (status_counts acc) of
        Inl e \<Rightarrow> Inl e
      | Inr rl \<Rightarrow>
          Inr ([''Execution Statistics'', replicate 40 CHR ''-'',
                ''Total executions: '' @ str_nat n] @ sl @ al @ rl)))))))))"

text \<open>
  Execution records as the data model describes them: dicts whose status, if present, is
  a string. \<open>count_status s\<close> counts the records whose status is \<open>s\<close>.
\<close>

definition stats_record :: "json \<Rightarrow> bool" where
  "stats_record ex =
     (case dict_get ex ''status'' (JStr ''unknown'') of Inr v \<Rightarrow> is_str v | Inl e \<Rightarrow> False)"

definition count_status :: "string \<Rightarrow> json list \<Rightarrow> nat" where
  "count_status s execs =
     length (filter (\<lambda>ex. dict_get ex ''status'' (JStr ''unknown'') = Inr (JStr s)) execs)"

definition sample_execs :: "json list" where
  "sample_execs =
     [JObj [(''id'', JInt 1), (''status'', JStr ''success''),
            (''startedAt'', JStr ''2024-01-15T10:30:00.000Z''),
            (''stoppedAt'', JStr ''2024-01-15T10:30:12.340Z'')],
      JObj [(''id'', JInt 2), (''status'', JStr ''error'')],
      JObj [(''id'', JInt 3), (''status'', JStr ''waiting'')],
      JObj [(''id'', JInt 4), (''status'', JStr ''success'')]]"

section \<open>Verified properties\<close>

subsection \<open>Requests sent by the client\<close>

lemma sent_request_body:
  "sent (snd (request_body net c m e d w)) =
     sent w @ [\<lparr> req_method = m, req_url = base_url c @ e,
                 req_headers = session_headers c, req_json = d \<rparr>]"
  by (simp add: request_body_def send_def Let_def split: http_result.split option.split)

lemma sent_N8nClient_request:
  "sent (snd (N8nClient_request net c m e d w)) =
     sent w @ [\<lparr> req_method = m, req_url = base_url c @ e,
                 req_headers = session_headers c, req_json = d \<rparr>]"
  using sent_request_body [of net c m e d w]
  by (auto simp add: N8nClient_request_def split: prod.split sum.split py_error.split option.split)

lemma sent_get_data: "sent (snd (get_data rw)) = sent (snd rw)"
  by (auto simp add: get_data_def split: prod.split result.split sum.split)

lemma sent_return_none: "sent (snd (return_none rw)) = sent (snd rw)"
  by (auto simp add: return_none_def split: prod.split result.split)

lemma sent_trigger_webhook:
  "sent (snd (trigger_webhook net c p d t w)) =
     sent w @ [\<lparr> req_method = ''POST'', req_url = webhook_url c p t, req_headers = [],
                 req_json = Some (if truthy d then d else JObj []) \<rparr>]"
  by (simp add: trigger_webhook_def send_def Let_def split: http_result.split option.split)

subsection \<open>Webhook routing\<close>

text \<open>
  C7. For every webhook path \<open>p\<close>, triggering with \<open>test = True\<close> sends exactly one POST
  to \<open><base>/webhook-test/<p>\<close>, and with \<open>test = False\<close> to \<open><base>/webhook/<p>\<close>, where
  \<open><base>\<close> is the client's base URL.
\<close>

theorem trigger_webhook_route:
  "map req_url (sent (snd (trigger_webhook net c p d True w))) =
     map req_url (sent w) @ [base_url c @ ''/webhook-test/'' @ p]
   \<and> map req_url (sent (snd (trigger_webhook net c p d False w))) =
     map req_url (sent w) @ [base_url c @ ''/webhook/'' @ p]
   \<and> map req_method (sent (snd (trigger_webhook net c p d t w))) =
     map req_method (sent w) @ [''POST'']"
  by (simp add: trigger_webhook_def webhook_url_def send_def Let_def
      split: http_result.split option.split)

subsection \<open>Authentication header\<close>

text \<open>
  C10. A client built by \<open>N8nClient url key\<close> sends exactly one request per operation.
  For the webhook trigger that request carries no \<open>X-N8N-API-KEY\<close> header; for every
  other operation it carries the header with the client's key.
\<close>

theorem webhook_sends_no_api_key:
  "\<exists>rq. sent (snd (run_op net (N8nClient url key) op w)) = sent w @ [rq]
       \<and> map_of (req_headers rq) ''X-N8N-API-KEY'' = (if is_webhook op then None else Some key)"
  by (cases op)
     (simp_all add: sent_N8nClient_request sent_get_data sent_return_none sent_trigger_webhook
        N8nClient_def)

subsection \<open>The watch loop\<close>

lemma watch_line_ok:
  "watchable ex \<Longrightarrow> \<exists>l. watch_line now ex = Inr l"
  by (auto simp add: watchable_def watch_line_def exec_key_def watch_icon_def dict_get_def
      dict_item_def split: sum.splits json.splits option.splits)

lemma watch_exec_ok:
  assumes "watchable ex"
  shows "\<exists>st' l. watch_exec now st ex = Inr st'
           \<and> seen_ids st' = insert (the (exec_key ex)) (seen_ids st)
           \<and> last_check st' = last_check st
           \<and> printed st' = printed st @
                (if the (exec_key ex) \<notin> seen_ids st \<and> last_check st \<noteq> None
                 then [(the (exec_key ex), l)] else [])"
proof -
  from assms obtain i k where i: "dict_item ex ''id'' = Inr i" and k: "py_key i = Inr k"
    by (auto simp add: watchable_def exec_key_def split: sum.splits)
  then have ek: "exec_key ex = Some k" by (simp add: exec_key_def)
  from watch_line_ok [OF assms] obtain l where l: "watch_line now ex = Inr l" by blast
  show ?thesis
    using i k ek l by (auto simp add: watch_exec_def Let_def insert_absorb)
qed

lemma keys_of_Cons:
  "watchable ex \<Longrightarrow> keys_of (ex # exs) = insert (the (exec_key ex)) (keys_of exs)"
proof -
  assume "watchable ex"
  then obtain k where "exec_key ex = Some k" by (auto simp add: watchable_def)
  then show ?thesis by (simp add: keys_of_def)
qed

lemma watch_for_ok:
  assumes "list_all watchable exs"
  shows "\<exists>st' new. watch_for now st exs = Inr st'
           \<and> seen_ids st' = seen_ids st \<union> keys_of exs
           \<and> last_check st' = last_check st
           \<and> printed st' = printed st @ new
           \<and> (last_check st = None \<longrightarrow> new = [])
           \<and> (last_check st \<noteq> None \<longrightarrow> set (map fst new) = keys_of exs - seen_ids st)
           \<and> distinct (map fst new)"
  using assms
proof (induction exs arbitrary: st)
  case Nil
  then show ?case by (simp add: keys_of_def)
next
  case (Cons ex exs)
  then have w: "watchable ex" and ws: "list_all watchable exs" by simp_all
  define k where "k = the (exec_key ex)"
  have kc: "keys_of (ex # exs) = insert k (keys_of exs)"
    unfolding k_def by (rule keys_of_Cons [OF w])
  have "\<exists>st1 l. watch_exec now st ex = Inr st1
           \<and> seen_ids st1 = insert k (seen_ids st)
           \<and> last_check st1 = last_check st
           \<and> printed st1 = printed st @
                (if k \<notin> seen_ids st \<and> last_check st \<noteq> None then [(k, l)] else [])"
    unfolding k_def by (rule watch_exec_ok [OF w])
  then obtain st1 where "\<exists>l. watch_exec now st ex = Inr st1
           \<and> seen_ids st1 = insert k (seen_ids st)
           \<and> last_check st1 = last_check st
           \<and> printed st1 = printed st @
                (if k \<notin> seen_ids st \<and> last_check st \<noteq> None then [(k, l)] else [])" ..
  then obtain l where H1: "watch_exec now st ex = Inr st1
           \<and> seen_ids st1 = insert k (seen_ids st)
           \<and> last_check st1 = last_check st
           \<and> printed st1 = printed st @
                (if k \<notin> seen_ids st \<and> last_check st \<noteq> None then [(k, l)] else [])" ..
  have e: "watch_exec now st ex = Inr st1" using H1 by (rule conjunct1)
  have s1: "seen_ids st1 = insert k (seen_ids st)"
    using H1 by (elim conjE)
  have c1: "last_check st1 = last_check st"
    using H1 by (elim conjE)
  have p1: "printed st1 = printed st @
                (if k \<notin> seen_ids st \<and> last_check st \<noteq> None then [(k, l)] else [])"
    using H1 by (elim conjE)
  from Cons.IH [OF ws, of st1] obtain st' where "\<exists>new. watch_for now st1 exs = Inr st'
           \<and> seen_ids st' = seen_ids st1 \<union> keys_of exs
           \<and> last_check st' = last_check st1
           \<and> printed st' = printed st1 @ new
           \<and> (last_check st1 = None \<longrightarrow> new = [])
           \<and> (last_check st1 \<noteq> None \<longrightarrow> set (map fst new) = keys_of exs - seen_ids st1)
           \<and> distinct (map fst new)" ..
  then obtain new where H2: "watch_for now st1 exs = Inr st'
           \<and> seen_ids st' = seen_ids st1 \<union> keys_of exs
           \<and> last_check st' = last_check st1
           \<and> printed st' = printed st1 @ new
           \<and> (last_check st1 = None \<longrightarrow> new = [])
           \<and> (last_check st1 \<noteq> None \<longrightarrow> set (map fst new) = keys_of exs - seen_ids st1)
           \<and> distinct (map fst new)" ..
  have f: "watch_for now st1 exs = Inr st'" using H2 by (elim conjE)
  have s2: "seen_ids st' = seen_ids st1 \<union> keys_of exs" using H2 by (elim conjE)
  have c2: "last_check st' = last_check st1" using H2 by (elim conjE)
  have p2: "printed st' = printed st1 @ new" using H2 by (elim conjE)
  have n0: "last_check st1 = None \<longrightarrow> new = []" using H2 by (elim conjE)
  have n1: "last_check st1 \<noteq> None \<longrightarrow> set (map fst new) = keys_of exs - seen_ids st1"
    using H2 by (elim conjE)
  have d: "distinct (map fst new)" using H2 by (elim conjE)
  have run: "watch_for now st (ex # exs) = Inr st'" using e f by simp
  have seen: "seen_ids st' = seen_ids st \<union> keys_of (ex # exs)"
    unfolding s2 s1 kc by blast
  have chk: "last_check st' = last_check st" using c1 c2 by simp
  show ?case
  proof (cases "last_check st = None")
    case True
    then have pr: "printed st' = printed st @ []" using p1 p2 n0 c1 by simp
    show ?thesis
      apply (rule exI [of _ st'], rule exI [of _ "[]"])
      using run seen chk True pr by simp
  next
    case False
    then have n1': "set (map fst new) = keys_of exs - insert k (seen_ids st)"
      using n1 c1 s1 by simp
    show ?thesis
    proof (cases "k \<in> seen_ids st")
      case True
      have pr: "printed st' = printed st @ new" using p1 p2 True by simp
      have st: "set (map fst new) = keys_of (ex # exs) - seen_ids st"
        unfolding n1' kc using True by blast
      show ?thesis
        apply (rule exI [of _ st'], rule exI [of _ new])
        using run seen chk d pr st by (simp add: False)
    next
      case notin: False
      have pr: "printed st' = printed st @ ((k, l) # new)" using p1 p2 notin False by simp
      have st: "set (map fst ((k, l) # new)) = keys_of (ex # exs) - seen_ids st"
        unfolding kc using n1' notin by auto
      have di: "distinct (map fst ((k, l) # new))" using d n1' by simp
      show ?thesis
        apply (rule exI [of _ st'], rule exI [of _ "(k, l) # new"])
        using run seen chk pr st di by (simp add: False)
    qed
  qed
qed

lemma keys_of_rev: "keys_of (rev xs) = keys_of xs"
  by (induction xs) (auto simp add: keys_of_def List.map_filter_def)

lemma watch_poll_ok:
  assumes "poll_ok poll"
  shows "\<exists>st' new. watch_poll st poll = Inr st'
           \<and> seen_ids st' = seen_ids st \<union> poll_keys poll
           \<and> last_check st' \<noteq> None
           \<and> printed st' = printed st @ new
           \<and> (last_check st = None \<longrightarrow> new = [])
           \<and> (last_check st \<noteq> None \<longrightarrow> set (map fst new) = poll_keys poll - seen_ids st)
           \<and> distinct (map fst new)"
proof -
  from assms obtain xs where xs: "snd poll = JArr xs" and ws: "list_all watchable xs"
    by (auto simp add: poll_ok_def split: json.splits)
  have pk: "poll_keys poll = keys_of (rev xs)"
    using xs by (simp add: poll_keys_def poll_execs_def keys_of_def keys_of_rev [unfolded keys_of_def])
  have "list_all watchable (rev xs)" using ws by (simp add: list_all_iff)
  from watch_for_ok [OF this, of "fst poll" st] obtain st1 where
    "\<exists>new. watch_for (fst poll) st (rev xs) = Inr st1
           \<and> seen_ids st1 = seen_ids st \<union> keys_of (rev xs)
           \<and> last_check st1 = last_check st
           \<and> printed st1 = printed st @ new
           \<and> (last_check st = None \<longrightarrow> new = [])
           \<and> (last_check st \<noteq> None \<longrightarrow> set (map fst new) = keys_of (rev xs) - seen_ids st)
           \<and> distinct (map fst new)" ..
  then obtain new where H: "watch_for (fst poll) st (rev xs) = Inr st1
           \<and> seen_ids st1 = seen_ids st \<union> keys_of (rev xs)
           \<and> last_check st1 = last_check st
           \<and> printed st1 = printed st @ new
           \<and> (last_check st = None \<longrightarrow> new = [])
           \<and> (last_check st \<noteq> None \<longrightarrow> set (map fst new) = keys_of (rev xs) - seen_ids st)
           \<and> distinct (map fst new)" ..
  have run: "watch_poll st poll = Inr (st1\<lparr>last_check := Some (fst poll)\<rparr>)"
    using H xs by (simp add: watch_poll_def py_reversed_def)
  show ?thesis
    apply (rule exI [of _ "st1\<lparr>last_check := Some (fst poll)\<rparr>"], rule exI [of _ new])
    using H run unfolding pk by simp
qed

lemma watch_run_snoc:
  "watch_run st (polls @ [poll]) =
     (case watch_run st polls of Inl e \<Rightarrow> Inl e | Inr st1 \<Rightarrow> watch_poll st1 poll)"
  by (induction polls arbitrary: st) (auto split: sum.splits)

lemma watch_run_step:
  assumes ok: "poll_ok poll"
    and r: "watch_run watch_init polls = Inr st"
    and s: "seen_ids st = \<Union> (poll_keys ` set polls)"
    and c0: "polls = [] \<longrightarrow> last_check st = None"
    and c1: "polls \<noteq> [] \<longrightarrow> last_check st \<noteq> None"
    and sub: "set (map fst (printed st)) \<subseteq> seen_ids st"
    and d: "distinct (map fst (printed st))"
  shows "\<exists>st' new. watch_run watch_init (polls @ [poll]) = Inr st'
           \<and> printed st' = printed st @ new
           \<and> (polls = [] \<longrightarrow> new = [])
           \<and> (polls \<noteq> [] \<longrightarrow>
                 set (map fst new) = poll_keys poll - \<Union> (poll_keys ` set polls))
           \<and> seen_ids st' = \<Union> (poll_keys ` set (polls @ [poll]))
           \<and> last_check st' \<noteq> None
           \<and> set (map fst (printed st')) \<subseteq> seen_ids st'
           \<and> distinct (map fst (printed st'))"
proof -
  from watch_poll_ok [OF ok, of st] obtain st' where
    "\<exists>new. watch_poll st poll = Inr st'
           \<and> seen_ids st' = seen_ids st \<union> poll_keys poll
           \<and> last_check st' \<noteq> None
           \<and> printed st' = printed st @ new
           \<and> (last_check st = None \<longrightarrow> new = [])
           \<and> (last_check st \<noteq> None \<longrightarrow> set (map fst new) = poll_keys poll - seen_ids st)
           \<and> distinct (map fst new)" ..
  then obtain new where H: "watch_poll st poll = Inr st'
           \<and> seen_ids st' = seen_ids st \<union> poll_keys poll
           \<and> last_check st' \<noteq> None
           \<and> printed st' = printed st @ new
           \<and> (last_check st = None \<longrightarrow> new = [])
           \<and> (last_check st \<noteq> None \<longrightarrow> set (map fst new) = poll_keys poll - seen_ids st)
           \<and> distinct (map fst new)" ..
  from H have p: "watch_poll st poll = Inr st'"
    and s': "seen_ids st' = seen_ids st \<union> poll_keys poll"
    and lc: "last_check st' \<noteq> None"
    and pr: "printed st' = printed st @ new"
    and n0: "last_check st = None \<longrightarrow> new = []"
    and n1: "last_check st \<noteq> None \<longrightarrow> set (map fst new) = poll_keys poll - seen_ids st"
    and dn: "distinct (map fst new)"
    by - ((elim conjE, assumption)+)
  have run: "watch_run watch_init (polls @ [poll]) = Inr st'"
    using r p by (simp add: watch_run_snoc)
  have seen: "seen_ids st' = \<Union> (poll_keys ` set (polls @ [poll]))"
    unfolding s' s by auto
  have first: "polls = [] \<longrightarrow> new = []" using c0 n0 by simp
  have later: "polls \<noteq> [] \<longrightarrow>
      set (map fst new) = poll_keys poll - \<Union> (poll_keys ` set polls)"
    using c1 n1 s by simp
  have newsub: "set (map fst new) \<subseteq> poll_keys poll - seen_ids st"
    using n0 n1 by (cases "last_check st = None") simp_all
  have sub': "set (map fst (printed st')) \<subseteq> seen_ids st'"
    unfolding pr s' using sub newsub by auto
  have "set (map fst (printed st)) \<inter> set (map fst new) = {}"
    using sub newsub by auto
  then have dist: "distinct (map fst (printed st'))"
    unfolding pr using d dn by simp
  show ?thesis
    apply (rule exI [of _ st'], rule exI [of _ new])
    apply (intro conjI)
    apply (fact run, fact pr, fact first, fact later, fact seen, fact lc, fact sub', fact dist)
    done
qed

lemma watch_run_invariant:
  assumes "list_all poll_ok polls"
  shows "\<exists>st. watch_run watch_init polls = Inr st
           \<and> seen_ids st = \<Union> (poll_keys ` set polls)
           \<and> (polls = [] \<longrightarrow> last_check st = None)
           \<and> (polls \<noteq> [] \<longrightarrow> last_check st \<noteq> None)
           \<and> set (map fst (printed st)) \<subseteq> seen_ids st
           \<and> distinct (map fst (printed st))"
  using assms
proof (induction polls rule: rev_induct)
  case Nil
  then show ?case by (simp add: watch_init_def)
next
  case (snoc poll polls)
  then have ok: "poll_ok poll" and oks: "list_all poll_ok polls" by simp_all
  from snoc.IH [OF oks] obtain st where IH: "watch_run watch_init polls = Inr st
           \<and> seen_ids st = \<Union> (poll_keys ` set polls)
           \<and> (polls = [] \<longrightarrow> last_check st = None)
           \<and> (polls \<noteq> [] \<longrightarrow> last_check st \<noteq> None)
           \<and> set (map fst (printed st)) \<subseteq> seen_ids st
           \<and> distinct (map fst (printed st))" ..
  from IH have r: "watch_run watch_init polls = Inr st"
    and s: "seen_ids st = \<Union> (poll_keys ` set polls)"
    and c0: "polls = [] \<longrightarrow> last_check st = None"
    and c1: "polls \<noteq> [] \<longrightarrow> last_check st \<noteq> None"
    and sub: "set (map fst (printed st)) \<subseteq> seen_ids st"
    and d: "distinct (map fst (printed st))"
    by - ((elim conjE, assumption)+)
  from watch_run_step [OF ok r s c0 c1 sub d] obtain st' where
    "\<exists>new. watch_run watch_init (polls @ [poll]) = Inr st'
           \<and> printed st' = printed st @ new
           \<and> (polls = [] \<longrightarrow> new = [])
           \<and> (polls \<noteq> [] \<longrightarrow>
                 set (map fst new) = poll_keys poll - \<Union> (poll_keys ` set polls))
           \<and> seen_ids st' = \<Union> (poll_keys ` set (polls @ [poll]))
           \<and> last_check st' \<noteq> None
           \<and> set (map fst (printed st')) \<subseteq> seen_ids st'
           \<and> distinct (map fst (printed st'))" ..
  then obtain new where H: "watch_run watch_init (polls @ [poll]) = Inr st'
           \<and> printed st' = printed st @ new
           \<and> (polls = [] \<longrightarrow> new = [])
           \<and> (polls \<noteq> [] \<longrightarrow>
                 set (map fst new) = poll_keys poll - \<Union> (poll_keys ` set polls))
           \<and> seen_ids st' = \<Union> (poll_keys ` set (polls @ [poll]))
           \<and> last_check st' \<noteq> None
           \<and> set (map fst (printed st')) \<subseteq> seen_ids st'
           \<and> distinct (map fst (printed st'))" ..
  from H have run: "watch_run watch_init (polls @ [poll]) = Inr st'"
    and seen: "seen_ids st' = \<Union> (poll_keys ` set (polls @ [poll]))"
    and lc: "last_check st' \<noteq> None"
    and sub': "set (map fst (printed st')) \<subseteq> seen_ids st'"
    and dist: "distinct (map fst (printed st'))"
    by - ((elim conjE, assumption)+)
  have e0: "polls @ [poll] = [] \<longrightarrow> last_check st' = None" by simp
  have e1: "polls @ [poll] \<noteq> [] \<longrightarrow> last_check st' \<noteq> None" using lc by simp
  show ?case
    apply (rule exI [of _ st'])
    apply (intro conjI)
    apply (fact run, fact seen, fact e0, fact e1, fact sub', fact dist)
    done
qed

text \<open>
  C9. Let the loop have processed the polls \<open>polls\<close> and process \<open>poll\<close> next, every
  fetched record being a dict with a hashable id and status. Then both runs complete, the
  lines printed during \<open>poll\<close> are \<open>new\<close>, and: if \<open>poll\<close> is the very first poll nothing
  is printed; otherwise the ids printed are exactly the ids of \<open>poll\<close> that occur in no
  earlier poll. No id is printed twice in the whole session.
\<close>

theorem watch_prints_unseen_ids_once:
  assumes "list_all poll_ok (polls @ [poll])"
  shows "\<exists>st st' new.
           watch_run watch_init polls = Inr st
         \<and> watch_run watch_init (polls @ [poll]) = Inr st'
         \<and> printed st' = printed st @ new
         \<and> (polls = [] \<longrightarrow> new = [])
         \<and> (polls \<noteq> [] \<longrightarrow> set (map fst new) = poll_keys poll - \<Union> (poll_keys ` set polls))
         \<and> distinct (map fst (printed st'))"
proof -
  from assms have ok: "poll_ok poll" and oks: "list_all poll_ok polls" by simp_all
  from watch_run_invariant [OF oks] obtain st where IH: "watch_run watch_init polls = Inr st
           \<and> seen_ids st = \<Union> (poll_keys ` set polls)
           \<and> (polls = [] \<longrightarrow> last_check st = None)
           \<and> (polls \<noteq> [] \<longrightarrow> last_check st \<noteq> None)
           \<and> set (map fst (printed st)) \<subseteq> seen_ids st
           \<and> distinct (map fst (printed st))" ..
  from IH have r: "watch_run watch_init polls = Inr st"
    and s: "seen_ids st = \<Union> (poll_keys ` set polls)"
    and c0: "polls = [] \<longrightarrow> last_check st = None"
    and c1: "polls \<noteq> [] \<longrightarrow> last_check st \<noteq> None"
    and sub: "set (map fst (printed st)) \<subseteq> seen_ids st"
    and d: "distinct (map fst (printed st))"
    by - ((elim conjE, assumption)+)
  from watch_run_step [OF ok r s c0 c1 sub d] obtain st' where
    "\<exists>new. watch_run watch_init (polls @ [poll]) = Inr st'
           \<and> printed st' = printed st @ new
           \<and> (polls = [] \<longrightarrow> new = [])
           \<and> (polls \<noteq> [] \<longrightarrow>
                 set (map fst new) = poll_keys poll - \<Union> (poll_keys ` set polls))
           \<and> seen_ids st' = \<Union> (poll_keys ` set (polls @ [poll]))
           \<and> last_check st' \<noteq> None
           \<and> set (map fst (printed st')) \<subseteq> seen_ids st'
           \<and> distinct (map fst (printed st'))" ..
  then obtain new where H: "watch_run watch_init (polls @ [poll]) = Inr st'
           \<and> printed st' = printed st @ new
           \<and> (polls = [] \<longrightarrow> new = [])
           \<and> (polls \<noteq> [] \<longrightarrow>
                 set (map fst new) = poll_keys poll - \<Union> (poll_keys ` set polls))
           \<and> seen_ids st' = \<Union> (poll_keys ` set (polls @ [poll]))
           \<and> last_check st' \<noteq> None
           \<and> set (map fst (printed st')) \<subseteq> seen_ids st'
           \<and> distinct (map fst (printed st'))" ..
  from H have run: "watch_run watch_init (polls @ [poll]) = Inr st'"
    and pr: "printed st' = printed st @ new"
    and first: "polls = [] \<longrightarrow> new = []"
    and later: "polls \<noteq> [] \<longrightarrow>
                 set (map fst new) = poll_keys poll - \<Union> (poll_keys ` set polls)"
    and dist: "distinct (map fst (printed st'))"
    by - ((elim conjE, assumption)+)
  show ?thesis
    apply (rule exI [of _ st], rule exI [of _ st'], rule exI [of _ new])
    apply (intro conjI)
    apply (fact r, fact run, fact pr, fact first, fact later, fact dist)
    done
qed

lemma sample_polls_ok: "list_all poll_ok ([sample_poll1] @ [sample_poll2])"
  by (simp add: sample_poll1_def sample_poll2_def poll_ok_def watchable_def exec_key_def
      dict_item_def dict_get_def)

lemma sample_poll_keys:
  "poll_keys sample_poll2 - poll_keys sample_poll1 = {JInt 2}"
  by (auto simp add: sample_poll1_def sample_poll2_def poll_keys_def poll_execs_def exec_key_def
      dict_item_def List.map_filter_def)

theorem watch_prints_unseen_ids_once_witness:
  "list_all poll_ok ([sample_poll1] @ [sample_poll2])
   \<and> (\<exists>st st' new.
           watch_run watch_init [sample_poll1] = Inr st
         \<and> watch_run watch_init ([sample_poll1] @ [sample_poll2]) = Inr st'
         \<and> printed st' = printed st @ new
         \<and> set (map fst new) = {JInt 2}
         \<and> distinct (map fst (printed st')))"
  using watch_prints_unseen_ids_once [OF sample_polls_ok] sample_polls_ok
  by (simp add: sample_poll_keys)

lemma watch_run_sample:
  "map fst (printed (case watch_run watch_init [sample_poll1, sample_poll2] of Inr st \<Rightarrow> st)) = [JInt 2]"
  by (simp add: sample_poll1_def sample_poll2_def watch_init_def watch_poll_def py_reversed_def
      watch_exec_def dict_item_def dict_get_def watch_line_def watch_icon_def Let_def)

subsection \<open>Item counts in the execution report\<close>

lemma count_branches_sum:
  "count_branches acc (map JArr bs) = Inr (acc + sum_list (map length (filter (\<lambda>b. b \<noteq> []) bs)))"
  by (induction bs arbitrary: acc) (simp_all add: py_len_json_def)

lemma sum_nonempty: "sum_list (map length (filter (\<lambda>b. b \<noteq> []) bs)) = sum_list (map length bs)"
  by (induction bs) simp_all

text \<open>
  C2. If the output of a node attempt (\<^verbatim>\<open>data['data']['main']\<close>) is a list of branches,
  each a list of items, the item count is the sum of the lengths of the non-empty
  branches, and that number is what the \<^verbatim>\<open>Items output\<close> line of the node shows.
  For the branches \<open>[[item1, item2], [], [item3]]\<close> the count is 3.
\<close>

theorem items_out_sums_branches:
  assumes "output_main d = Inr (JArr (map JArr bs))"
  shows "items_out d = Inr (sum_list (map length (filter (\<lambda>b. b \<noteq> []) bs)))
       \<and> (\<forall>ls. node_block verbose (name, exec_time, d) = Inr ls \<longrightarrow>
             ls ! 2 = ''   Items output: '' @ str_nat (sum_list (map length (filter (\<lambda>b. b \<noteq> []) bs))))"
proof -
  have io: "items_out d = Inr (sum_list (map length (filter (\<lambda>b. b \<noteq> []) bs)))"
  proof (cases "bs = []")
    case True
    then show ?thesis using assms by (simp add: items_out_def)
  next
    case False
    then show ?thesis using assms by (simp add: items_out_def py_iter_def count_branches_sum)
  qed
  then show ?thesis
    by (auto simp add: node_block_def Let_def split: sum.splits)
qed

lemma sample_output_main:
  "output_main sample_attempt =
     Inr (JArr (map JArr [[JObj [(''json'', JObj [])], JObj [(''json'', JObj [])]], [],
                    [JObj [(''json'', JObj [])]]]))"
  by (simp add: sample_attempt_def output_main_def dict_get_def)

lemma sample_node_block:
  "node_block False (''B'', JInt 5, sample_attempt) =
       Inr [[CHR 0x0A] @ icon_success @ '' B'', ''   Execution time: 5ms'', ''   Items output: 3'']"
  by (simp add: node_block_def Let_def has_key_def sample_attempt_def error_line_def
        verbose_lines_def py_str_def str_int_def str_nat.simps digit_char_def
        items_out_def output_main_def dict_get_def py_iter_def py_len_json_def)

theorem items_out_sums_branches_witness:
  "items_out sample_attempt = Inr 3
   \<and> node_block False (''B'', JInt 5, sample_attempt) =
       Inr [[CHR 0x0A] @ icon_success @ '' B'', ''   Execution time: 5ms'', ''   Items output: 3'']"
proof -
  have "items_out sample_attempt = Inr 3"
    using items_out_sums_branches [OF sample_output_main, of False "''B''" "JInt 5"]
    by (simp add: eval_nat_numeral)
  then show ?thesis using sample_node_block by simp
qed

subsection \<open>Order of the node listing\<close>

lemma collect_nodes_names:
  assumes "list_all attempt_list (map snd kvs)"
  shows "\<exists>xs. collect_nodes kvs = Inr xs
           \<and> map fst xs = map fst (filter (\<lambda>kv. snd kv \<noteq> JArr []) kvs)"
  using assms
proof (induction kvs)
  case Nil
  then show ?case by simp
next
  case (Cons kv kvs)
  then obtain xs where xs: "collect_nodes kvs = Inr xs"
    and names: "map fst xs = map fst (filter (\<lambda>kv. snd kv \<noteq> JArr []) kvs)"
    by auto
  from Cons.prems obtain as where as: "snd kv = JArr as"
    and ds: "list_all (\<lambda>a. case a of JObj kvs \<Rightarrow> True | _ \<Rightarrow> False) as"
    by (auto simp add: attempt_list_def split: json.splits)
  show ?case
  proof (cases as)
    case Nil
    then show ?thesis using as xs names by simp
  next
    case (Cons a rest)
    with ds obtain fields where "a = JObj fields" by (auto split: json.splits)
    then show ?thesis using Cons as xs names
      by (simp add: py_first_def dict_get_def split: option.split)
  qed
qed

lemma map_fst_insort_key: "map fst (insort_key fst x xs) = insort (fst x) (map fst xs)"
  by (induction xs) simp_all

lemma map_fst_sort_key: "map fst (sort_key fst xs) = sort (map fst xs)"
  by (induction xs) (simp_all add: map_fst_insort_key)

lemma node_blocks_names:
  "node_blocks verbose nodes = Inr bs \<Longrightarrow> map (\<lambda>b. drop 5 (hd b)) bs = map fst nodes"
proof (induction nodes arbitrary: bs)
  case Nil
  then show ?case by simp
next
  case (Cons node nodes)
  then obtain b rest where b: "node_block verbose node = Inr b"
    and rest: "node_blocks verbose nodes = Inr rest" and bs: "bs = b # rest"
    by (auto split: sum.splits)
  from b have "drop 5 (hd b) = fst node"
    by (auto simp add: node_block_def Let_def icon_success_def icon_error_def split: sum.splits)
  then show ?case using Cons.IH [OF rest] bs by simp
qed

text \<open>
  C3. For run data with one attempt list per node name, the nodes listed are those with
  at least one attempt, in ascending order of their names: the listing is the sorted
  enumeration of a set of names, so neither \<^verbatim>\<open>executionTime\<close> nor the insertion order of
  the dict has any influence. Each printed block starts with the line of its node name.
  Keys \<open>B, A, C\<close> are listed as \<open>A, B, C\<close>.
\<close>

theorem nodes_printed_in_name_order:
  assumes "distinct (map fst kvs)" and "list_all attempt_list (map snd kvs)"
  shows "\<exists>nodes. node_times (JObj kvs) = Inr nodes
           \<and> map fst nodes = sorted_list_of_set (node_names kvs)
           \<and> (\<forall>blocks. node_section verbose (JObj kvs) = Inr blocks \<longrightarrow>
                 map (\<lambda>b. drop 5 (hd b)) (tl blocks) = sorted_list_of_set (node_names kvs))"
proof -
  from collect_nodes_names [OF assms(2)] obtain xs where xs: "collect_nodes kvs = Inr xs"
    and names: "map fst xs = map fst (filter (\<lambda>kv. snd kv \<noteq> JArr []) kvs)"
    by auto
  let ?nodes = "sort_key fst xs"
  have nt: "node_times (JObj kvs) = Inr ?nodes" using xs by (simp add: node_times_def)
  have d: "distinct (map fst (filter (\<lambda>kv. snd kv \<noteq> JArr []) kvs))"
    using assms(1) by (rule distinct_map_filter)
  have st: "set (map fst (filter (\<lambda>kv. snd kv \<noteq> JArr []) kvs)) = node_names kvs"
    by (simp add: node_names_def)
  have "map fst ?nodes = sort (map fst (filter (\<lambda>kv. snd kv \<noteq> JArr []) kvs))"
    by (simp add: map_fst_sort_key names)
  also have "\<dots> = sorted_list_of_set (node_names kvs)"
    using d st by (metis sorted_list_of_set_sort_remdups distinct_remdups_id)
  finally have order: "map fst ?nodes = sorted_list_of_set (node_names kvs)" .
  have "\<forall>blocks. node_section verbose (JObj kvs) = Inr blocks \<longrightarrow>
          map (\<lambda>b. drop 5 (hd b)) (tl blocks) = sorted_list_of_set (node_names kvs)"
    using nt order node_blocks_names [of verbose ?nodes]
    by (auto simp add: node_section_def node_names_def split: sum.splits if_splits)
  then show ?thesis using nt order by blast
qed

lemma sample_run_data_ok:
  "distinct (map fst sample_run_data) \<and> list_all attempt_list (map snd sample_run_data)"
  by (simp add: sample_run_data_def attempt_list_def sample_attempt_def)

lemma sample_node_names: "sorted_list_of_set (node_names sample_run_data) = [''A'', ''B'', ''C'']"
  by (simp add: node_names_def sample_run_data_def sample_attempt_def
      sorted_list_of_set_sort_remdups)

theorem nodes_printed_in_name_order_witness:
  "distinct (map fst sample_run_data) \<and> list_all attempt_list (map snd sample_run_data)
   \<and> (\<exists>nodes. node_times (JObj sample_run_data) = Inr nodes
           \<and> map fst nodes = [''A'', ''B'', ''C''])"
  using nodes_printed_in_name_order [of sample_run_data False] sample_run_data_ok
  by (auto simp add: sample_node_names)

lemma sample_node_section:
  "map (map (drop 5)) (map (take 1) (case node_section False (JObj sample_run_data) of Inr bs \<Rightarrow> tl bs)) = [[''A''], [''B''], [''C'']]"
  by (simp add: node_section_def node_times_def sample_run_data_def sample_attempt_def
      py_first_def dict_get_def node_block_def Let_def has_key_def error_line_def dict_item_def
        verbose_lines_def py_str_def str_int_def str_nat.simps digit_char_def
        items_out_def output_main_def py_iter_def py_len_json_def icon_success_def icon_error_def)

subsection \<open>Rounding to a double\<close>

lemma rhe_floor: "\<lfloor>x\<rfloor> \<le> round_half_even x"
  unfolding round_half_even_def Let_def by simp

lemma rhe_ceiling: "round_half_even x \<le> \<lceil>x\<rceil>"
proof -
  have "x - of_int \<lfloor>x\<rfloor> \<noteq> 0 \<Longrightarrow> \<lfloor>x\<rfloor> + 1 \<le> \<lceil>x\<rceil>"
    by (metis ceiling_altdef diff_self eq_iff_diff_eq_0 order_refl)
  moreover have "\<lfloor>x\<rfloor> \<le> \<lceil>x\<rceil>" by (rule floor_le_ceiling)
  ultimately show ?thesis
    unfolding round_half_even_def Let_def by auto
qed

lemma rhe_ge: "of_int n \<le> x \<Longrightarrow> n \<le> round_half_even x"
proof -
  assume "of_int n \<le> x"
  then have "n \<le> \<lfloor>x\<rfloor>" by (simp add: le_floor_iff)
  then show ?thesis using rhe_floor [of x] by linarith
qed

lemma rhe_le: "x \<le> of_int n \<Longrightarrow> round_half_even x \<le> n"
  using rhe_ceiling [of x] by (meson ceiling_le_iff order_trans)

lemma rhe_int: "round_half_even (of_int n) = n"
  unfolding round_half_even_def Let_def by simp

lemma float_exponent_bounds:
  assumes "0 < x"
  shows "2 powi (float_exponent x) \<le> x \<and> x < 2 powi (float_exponent x + 1)"
proof -
  obtain a b where q: "quotient_of x = (a, b)" by (cases "quotient_of x")
  then have b: "0 < b" by (rule quotient_of_denom_pos)
  have x: "x = of_int a / of_int b" using q by (rule quotient_of_div)
  have a: "0 < a" using assms b x by (simp add: zero_less_divide_iff)
  define d where "d = bitlen a - bitlen b"
  have ba: "2 ^ nat (bitlen a - 1) \<le> a \<and> a < 2 ^ nat (bitlen a)" using a by (rule bitlen_bounds)
  have bb: "2 ^ nat (bitlen b - 1) \<le> b \<and> b < 2 ^ nat (bitlen b)" using b by (rule bitlen_bounds)
  have la: "1 \<le> bitlen a" using a by (simp add: bitlen_alt_def)
  have lb: "1 \<le> bitlen b" using b by (simp add: bitlen_alt_def)
  have pa: "(2::rat) powi (bitlen a - 1) \<le> of_int a \<and> of_int a < (2::rat) powi (bitlen a)"
  proof -
    have "(of_int (2 ^ nat (bitlen a - 1)) :: rat) \<le> of_int a" using ba by (simp only: of_int_le_iff)
    moreover have "(of_int a :: rat) < of_int (2 ^ nat (bitlen a))" using ba by (simp only: of_int_less_iff)
    ultimately show ?thesis using la by (simp add: power_int_def)
  qed
  have pb: "(2::rat) powi (bitlen b - 1) \<le> of_int b \<and> of_int b < (2::rat) powi (bitlen b)"
  proof -
    have "(of_int (2 ^ nat (bitlen b - 1)) :: rat) \<le> of_int b" using bb by (simp only: of_int_le_iff)
    moreover have "(of_int b :: rat) < of_int (2 ^ nat (bitlen b))" using bb by (simp only: of_int_less_iff)
    ultimately show ?thesis using lb by (simp add: power_int_def)
  qed
  have bpos: "(0::rat) < of_int b" using b by simp
  have up: "x < 2 powi (d + 1)"
  proof -
    have "of_int a < (2::rat) powi (d + 1) * 2 powi (bitlen b - 1)"
      using pa by (simp add: d_def power_int_add [symmetric])
    also have "\<dots> \<le> 2 powi (d + 1) * of_int b"
      using pb by (intro mult_left_mono) simp_all
    finally show ?thesis using bpos by (simp add: x pos_divide_less_eq)
  qed
  have low: "2 powi (d - 1) \<le> x"
  proof -
    have "(2::rat) powi (d - 1) * of_int b \<le> 2 powi (d - 1) * 2 powi (bitlen b)"
      using pb by (intro mult_left_mono) simp_all
    also have "\<dots> = 2 powi (bitlen a - 1)"
      by (simp add: d_def power_int_add [symmetric])
    also have "\<dots> \<le> of_int a" using pa by simp
    finally show ?thesis using bpos by (simp add: x pos_le_divide_eq)
  qed
  show ?thesis
    using up low q by (simp add: float_exponent_def Let_def d_def)
qed


lemma fl_pos:
  assumes "0 < x"
  shows "fl x = of_int (round_half_even (x / 2 powi (float_exponent x - 52))) * 2 powi (float_exponent x - 52)"
  using assms by (simp add: fl_def Let_def)

text \<open>A number on the grid of the binade of x is not crossed by rounding x.\<close>

lemma fl_ge_grid:
  assumes x: "0 < x" and c: "c = of_int n * 2 powi (float_exponent x - 52)" and le: "c \<le> x"
  shows "c \<le> fl x"
proof -
  let ?u = "(2::rat) powi (float_exponent x - 52)"
  have u: "0 < ?u" by (simp add: zero_less_power_int)
  have "of_int n \<le> x / ?u" using le c u by (simp add: pos_le_divide_eq)
  then have "n \<le> round_half_even (x / ?u)" by (rule rhe_ge)
  then have "(of_int n :: rat) \<le> of_int (round_half_even (x / ?u))" by simp
  then have "of_int n * ?u \<le> of_int (round_half_even (x / ?u)) * ?u"
    using u by (simp add: mult_right_mono)
  then show ?thesis using c by (simp add: fl_pos [OF x])
qed

lemma fl_le_grid:
  assumes x: "0 < x" and c: "c = of_int n * 2 powi (float_exponent x - 52)" and le: "x \<le> c"
  shows "fl x \<le> c"
proof -
  let ?u = "(2::rat) powi (float_exponent x - 52)"
  have u: "0 < ?u" by (simp add: zero_less_power_int)
  have "x / ?u \<le> of_int n" using le c u by (simp add: pos_divide_le_eq)
  then have "round_half_even (x / ?u) \<le> n" by (rule rhe_le)
  then have "(of_int (round_half_even (x / ?u)) :: rat) \<le> of_int n" by simp
  then have "of_int (round_half_even (x / ?u)) * ?u \<le> of_int n * ?u"
    using u by (simp add: mult_right_mono)
  then show ?thesis using c by (simp add: fl_pos [OF x])
qed

lemma pow2_grid:
  assumes "k \<le> j"
  shows "(2::rat) powi j = of_int (2 ^ nat (j - k)) * 2 powi k"
proof -
  have "(2::rat) powi j = 2 powi (j - k) * 2 powi k" by (simp add: power_int_add [symmetric])
  also have "(2::rat) powi (j - k) = of_int (2 ^ nat (j - k))"
    using assms by (simp add: power_int_def)
  finally show ?thesis .
qed

lemma fl_ge_pow2:
  assumes "0 < x"
  shows "2 powi (float_exponent x) \<le> fl x"
proof -
  have "(2::rat) powi (float_exponent x) = of_int (2 ^ nat (float_exponent x - (float_exponent x - 52))) * 2 powi (float_exponent x - 52)"
    by (rule pow2_grid) simp
  then show ?thesis
    using float_exponent_bounds [OF assms] fl_ge_grid [OF assms] by blast
qed

lemma exponent_less:
  assumes "0 < x" and "x < 2 powi k"
  shows "float_exponent x < k"
proof (rule ccontr)
  assume "\<not> float_exponent x < k"
  then have "k \<le> float_exponent x" by simp
  then have "(2::rat) powi k \<le> 2 powi (float_exponent x)"
    by (intro power_int_increasing) simp_all
  then show False using float_exponent_bounds [OF assms(1)] assms(2) by linarith
qed

lemma exponent_ge:
  assumes "0 < x" and "2 powi k \<le> x"
  shows "k \<le> float_exponent x"
proof (rule ccontr)
  assume "\<not> k \<le> float_exponent x"
  then have "float_exponent x + 1 \<le> k" by simp
  then have "(2::rat) powi (float_exponent x + 1) \<le> 2 powi k"
    by (intro power_int_increasing) simp_all
  then show False using float_exponent_bounds [OF assms(1)] assms(2) by linarith
qed


lemma pow2_minus_20: "(2::rat) powi (-20) = 1 / 2 ^ 20"
  by (simp add: power_int_minus inverse_eq_divide)

lemma dyadic_grid:
  assumes "e \<le> 32"
  shows "(of_int m / 2 ^ 20 :: rat) = of_int (m * 2 ^ nat (32 - e)) * 2 powi (e - 52)"
proof -
  have "(2::rat) powi (-20) = of_int (2 ^ nat (-20 - (e - 52))) * 2 powi (e - 52)"
    by (rule pow2_grid) (use assms in simp)
  moreover have "- 20 - (e - 52) = 32 - e" by simp
  moreover have "(of_int m / 2 ^ 20 :: rat) = of_int m * 2 powi (-20)"
    by (simp only: pow2_minus_20 times_divide_eq_right mult_1_right)
  ultimately show ?thesis by (simp only: of_int_mult of_int_power of_int_numeral mult.assoc)
qed

lemma fl_le_dyadic:
  assumes x: "0 < x" and xk: "x < 2 powi 33" and le: "x \<le> of_int m / 2 ^ 20"
  shows "fl x \<le> of_int m / 2 ^ 20"
proof -
  have "float_exponent x \<le> 32" using exponent_less [OF x xk] by simp
  from dyadic_grid [OF this] show ?thesis using fl_le_grid [OF x _ le] by blast
qed

lemma fl_ge_dyadic:
  assumes x: "0 < x" and xk: "x < 2 powi 33" and le: "of_int m / 2 ^ 20 \<le> x"
  shows "of_int m / 2 ^ 20 \<le> fl x"
proof -
  have "float_exponent x \<le> 32" using exponent_less [OF x xk] by simp
  from dyadic_grid [OF this] show ?thesis using fl_ge_grid [OF x _ le] by blast
qed

lemma fl_ge_one:
  assumes "1 \<le> x"
  shows "1 \<le> fl x"
proof -
  have x: "0 < x" using assms by simp
  have "0 \<le> float_exponent x" using exponent_ge [OF x, of 0] assms by simp
  then have "(2::rat) powi 0 \<le> 2 powi (float_exponent x)"
    by (intro power_int_increasing) simp_all
  then show ?thesis using fl_ge_pow2 [OF x] by simp
qed

lemma total_seconds_lt_1:
  assumes "0 \<le> us" and "us < 10 ^ 6"
  shows "0 \<le> total_seconds us \<and> total_seconds us < 1"
proof (cases "us = 0")
  case True
  then show ?thesis by (simp add: total_seconds_def py_truediv_def fl_def)
next
  case False
  let ?x = "of_int us / 10 ^ 6 :: rat"
  have x: "0 < ?x" using assms False by simp
  have "us \<le> 999999" using assms by simp
  then have "(of_int us :: rat) \<le> 999999" by (metis of_int_le_iff of_int_numeral)
  then have le: "?x \<le> of_int 1048575 / 2 ^ 20" by simp
  have "?x < 2 powi 33" using le by (simp add: power_int_def)
  from fl_le_dyadic [OF x this le] have "fl ?x < 1" by simp
  moreover have "0 \<le> fl ?x" using fl_ge_pow2 [OF x]
    by (meson less_eq_rat_def order_trans zero_less_numeral zero_less_power_int)
  ultimately show ?thesis by (simp add: total_seconds_def py_truediv_def)
qed

lemma total_seconds_ge_1:
  assumes "10 ^ 6 \<le> us"
  shows "1 \<le> total_seconds us"
proof -
  have "(10 ^ 6 :: rat) \<le> of_int us" using assms by (metis of_int_le_iff of_int_numeral of_int_power)
  then have "1 \<le> (of_int us / 10 ^ 6 :: rat)" by simp
  then show ?thesis unfolding total_seconds_def py_truediv_def by (rule fl_ge_one)
qed

lemma total_seconds_lt_60:
  assumes "10 ^ 6 \<le> us" and "us < 60 * 10 ^ 6"
  shows "total_seconds us < 60"
proof -
  let ?x = "of_int us / 10 ^ 6 :: rat"
  have "(10 ^ 6 :: rat) \<le> of_int us" using assms by (metis of_int_le_iff of_int_numeral of_int_power)
  then have x: "0 < ?x" by simp
  have "us \<le> 59999999" using assms by simp
  then have "(of_int us :: rat) \<le> 59999999" by (metis of_int_le_iff of_int_numeral)
  then have le: "?x \<le> of_int 62914559 / 2 ^ 20" by simp
  have "?x < 2 powi 33" using le by (simp add: power_int_def)
  from fl_le_dyadic [OF x this le] have "fl ?x < 60" by simp
  then show ?thesis by (simp add: total_seconds_def py_truediv_def)
qed

lemma total_seconds_ge_60:
  assumes "60 * 10 ^ 6 \<le> us"
  shows "60 \<le> total_seconds us"
proof -
  let ?x = "of_int us / 10 ^ 6 :: rat"
  have "(60 * 10 ^ 6 :: rat) \<le> of_int us"
    using assms by (metis of_int_le_iff of_int_numeral of_int_power of_int_mult)
  then have le: "of_int 62914560 / 2 ^ 20 \<le> ?x" by simp
  then have x: "0 < ?x" by simp
  show ?thesis
  proof (cases "?x < 2 powi 33")
    case True
    from fl_ge_dyadic [OF x True le] show ?thesis by (simp add: total_seconds_def py_truediv_def)
  next
    case False
    then have "33 \<le> float_exponent ?x" using exponent_ge [OF x, of 33] by simp
    then have "(2::rat) powi 33 \<le> 2 powi (float_exponent ?x)"
      by (intro power_int_increasing) simp_all
    then have "(2::rat) powi 33 \<le> fl ?x" using fl_ge_pow2 [OF x] by simp
    then show ?thesis by (simp add: total_seconds_def py_truediv_def power_int_def)
  qed
qed

subsection \<open>Duration formatting\<close>

lemma dt_le_sub:
  assumes "dt_le a b = Inr True"
  shows "\<exists>us. dt_sub b a = Inr us \<and> 0 \<le> us"
  using assms by (auto simp add: dt_le_def dt_sub_def split: option.splits)

lemma render_duration_tiers:
  assumes "0 \<le> us"
  shows "render_duration (total_seconds us) =
     (if us < 10 ^ 6 then str_int (py_int (py_mul (total_seconds us) 1000)) @ ''ms''
      else if us < 60 * 10 ^ 6 then format_fixed 1 (total_seconds us) @ ''s''
      else str_int \<lfloor>total_seconds us / 60\<rfloor> @ ''m '' @
           str_int \<lfloor>total_seconds us - 60 * of_int \<lfloor>total_seconds us / 60\<rfloor>\<rfloor> @ ''s'')"
proof (cases "us < 10 ^ 6")
  case True
  then show ?thesis using total_seconds_lt_1 [OF assms True] by (simp add: render_duration_def)
next
  case False
  then have ge: "10 ^ 6 \<le> us" by simp
  have one: "\<not> total_seconds us < 1" using total_seconds_ge_1 [OF ge] by simp
  show ?thesis
  proof (cases "us < 60 * 10 ^ 6")
    case True
    then show ?thesis using False one total_seconds_lt_60 [OF ge True]
      by (simp add: render_duration_def)
  next
    case big: False
    then have "60 * 10 ^ 6 \<le> us" by simp
    from total_seconds_ge_60 [OF this] have "\<not> total_seconds us < 60" by simp
    then show ?thesis using False big one by (simp add: render_duration_def Let_def)
  qed
qed

lemma format_fixed_one_decimal:
  "format_fixed 1 x =
     (if x < 0 then ''-'' else []) @ str_nat (nat (round_half_even (\<bar>x\<bar> * 10)) div 10) @ ''.'' @
     [digit_char (nat (round_half_even (\<bar>x\<bar> * 10)) mod 10)]"
  by (simp add: format_fixed_def Let_def str_nat.simps [of "nat (round_half_even (\<bar>x\<bar> * 10)) mod 10"])

text \<open>
  C1. Let \<open>start\<close> and \<open>stop\<close> be non-empty strings that the parser accepts (after the
  replacement of \<^verbatim>\<open>Z\<close>) with \<open>start \<le> stop\<close> in Python's order of \<^verbatim>\<open>datetime\<close> values.
  Then the difference is a number \<open>us \<ge> 0\<close> of microseconds and the formatter returns:
  below one second (\<open>us < 10^6\<close>) the integer \<^verbatim>\<open>int(total_seconds * 1000)\<close> followed by
  \<^verbatim>\<open>ms\<close>; from one second and below sixty the seconds with one decimal followed by
  \<^verbatim>\<open>s\<close>; otherwise whole minutes and whole remaining seconds as \<^verbatim>\<open>Xm Ys\<close>. The tier is
  decided by the exact difference: rounding \<^verbatim>\<open>total_seconds\<close> to a double never moves a
  duration across 1 or 60.
\<close>

theorem format_duration_tiers:
  assumes "s1 \<noteq> []" and "s2 \<noteq> []"
    and "fromisoformat (replace_Z s1) = Some start_dt"
    and "fromisoformat (replace_Z s2) = Some stop_dt"
    and "dt_le start_dt stop_dt = Inr True"
  shows "\<exists>us. dt_sub stop_dt start_dt = Inr us \<and> 0 \<le> us \<and>
     format_duration fromisoformat (JStr s1) (JStr s2) = Inr
       (if us < 10 ^ 6 then str_int (py_int (py_mul (total_seconds us) 1000)) @ ''ms''
        else if us < 60 * 10 ^ 6 then format_fixed 1 (total_seconds us) @ ''s''
        else str_int \<lfloor>total_seconds us / 60\<rfloor> @ ''m '' @
             str_int \<lfloor>total_seconds us - 60 * of_int \<lfloor>total_seconds us / 60\<rfloor>\<rfloor> @ ''s'')"
proof -
  from dt_le_sub [OF assms(5)] obtain us where us: "dt_sub stop_dt start_dt = Inr us" and nn: "0 \<le> us"
    by auto
  have "format_duration fromisoformat (JStr s1) (JStr s2) = Inr (render_duration (total_seconds us))"
    using assms us by (simp add: format_duration_def duration_try_def parse_timestamp_def)
  then show ?thesis using us nn render_duration_tiers [OF nn] by simp
qed

lemmas iso_parser_defs =
  iso_parser_def replace_Z_def Let_def parse_date_def parse_time_def parse_fraction_def
  parse_offset_def number_def less_eq_char_def days_in_month_def days_before_year_def
  days_before_month_def is_leap_def

lemma sample_start: "iso_parser (replace_Z ''2024-01-15T10:30:00.000Z'')
    = Some \<lparr>wall_us = 63840911400000000, utcoffset = Some 0\<rparr>"
  by (simp add: iso_parser_defs)

lemma sample_stop_ms: "iso_parser (replace_Z ''2024-01-15T10:30:00.250Z'')
    = Some \<lparr>wall_us = 63840911400250000, utcoffset = Some 0\<rparr>"
  by (simp add: iso_parser_defs)

lemma sample_stop_s: "iso_parser (replace_Z ''2024-01-15T10:30:12.340Z'')
    = Some \<lparr>wall_us = 63840911412340000, utcoffset = Some 0\<rparr>"
  by (simp add: iso_parser_defs)

lemma sample_stop_m: "iso_parser (replace_Z ''2024-01-15T10:32:05.000Z'')
    = Some \<lparr>wall_us = 63840911525000000, utcoffset = Some 0\<rparr>"
  by (simp add: iso_parser_defs)

lemma sample_render:
  "str_int (py_int (py_mul (total_seconds 250000) 1000)) = ''250''"
  "format_fixed 1 (total_seconds 12340000) = ''12.3''"
  "str_int \<lfloor>total_seconds 125000000 / 60\<rfloor> = ''2''"
  "str_int \<lfloor>total_seconds 125000000 - 60 * of_int \<lfloor>total_seconds 125000000 / 60\<rfloor>\<rfloor> = ''5''"
  by code_simp+

theorem format_duration_tiers_witness:
  "format_duration iso_parser (JStr ''2024-01-15T10:30:00.000Z'') (JStr ''2024-01-15T10:30:00.250Z'') = Inr ''250ms''
   \<and> format_duration iso_parser (JStr ''2024-01-15T10:30:00.000Z'') (JStr ''2024-01-15T10:30:12.340Z'') = Inr ''12.3s''
   \<and> format_duration iso_parser (JStr ''2024-01-15T10:30:00.000Z'') (JStr ''2024-01-15T10:32:05.000Z'') = Inr ''2m 5s''"
proof -
  have a: "format_duration iso_parser (JStr ''2024-01-15T10:30:00.000Z'') (JStr ''2024-01-15T10:30:00.250Z'') = Inr ''250ms''"
    using format_duration_tiers [OF _ _ sample_start sample_stop_ms]
    by (simp add: dt_le_def dt_sub_def sample_render del: One_nat_def)
  have b: "format_duration iso_parser (JStr ''2024-01-15T10:30:00.000Z'') (JStr ''2024-01-15T10:30:12.340Z'') = Inr ''12.3s''"
    using format_duration_tiers [OF _ _ sample_start sample_stop_s]
    by (simp add: dt_le_def dt_sub_def sample_render del: One_nat_def)
  have c: "format_duration iso_parser (JStr ''2024-01-15T10:30:00.000Z'') (JStr ''2024-01-15T10:32:05.000Z'') = Inr ''2m 5s''"
    using format_duration_tiers [OF _ _ sample_start sample_stop_m]
    by (simp add: dt_le_def dt_sub_def sample_render del: One_nat_def)
  show ?thesis using a b c by simp
qed

text \<open>
  C8. The duration formatter returns for every pair of inputs, and it returns the
  placeholder \<^verbatim>\<open>N/A\<close> whenever the start or the stop is missing (\<^verbatim>\<open>None\<close>) or empty, or is
  not a string, or is a string the parser rejects.
\<close>

theorem format_duration_placeholder:
  "(\<exists>s. format_duration fromisoformat start stop = Inr s)
   \<and> ((start = JNull \<or> start = JStr [] \<or> stop = JNull \<or> stop = JStr []
        \<or> (\<exists>e. parse_timestamp fromisoformat start = Inl e)
        \<or> (\<exists>e. parse_timestamp fromisoformat stop = Inl e))
       \<longrightarrow> format_duration fromisoformat start stop = Inr ''N/A'')"
  by (auto simp add: format_duration_def duration_try_def split: sum.splits)

lemma sample_garbage: "iso_parser (replace_Z ''yesterday'') = None"
  by (simp add: iso_parser_defs)

theorem format_duration_placeholder_witness:
  "format_duration iso_parser JNull (JStr ''2024-01-15T10:30:00.250Z'') = Inr ''N/A''
   \<and> format_duration iso_parser (JStr ''2024-01-15T10:30:00.000Z'') (JStr []) = Inr ''N/A''
   \<and> format_duration iso_parser (JStr ''yesterday'') (JStr ''2024-01-15T10:30:00.250Z'') = Inr ''N/A''
   \<and> format_duration iso_parser (JStr ''2024-01-15T10:30:00.000Z'') (JInt 5) = Inr ''N/A''"
  using format_duration_placeholder [of iso_parser JNull "JStr ''2024-01-15T10:30:00.250Z''"]
    format_duration_placeholder [of iso_parser "JStr ''2024-01-15T10:30:00.000Z''" "JStr []"]
    format_duration_placeholder [of iso_parser "JStr ''yesterday''" "JStr ''2024-01-15T10:30:00.250Z''"]
    format_duration_placeholder [of iso_parser "JStr ''2024-01-15T10:30:00.000Z''" "JInt 5"]
  by (simp add: parse_timestamp_def sample_garbage)

end
